theory Spec2Isabelle
  imports Complex_Main "HOL-Library.AList" "HOL-Library.List_Lexorder" "HOL-Library.Multiset"
begin

section \<open>Strings, exceptions, dates\<close>

text \<open>
  A Python \<open>str\<close> is a sequence of Unicode code points; it is modelled as a list of
  code points. \<open>ascii\<close> embeds an ASCII literal. The character classes are the ones the
  source relies on. In Python, \<open>str.strip\<close> and \<open>\s\<close> of \<open>re\<close> use the Unicode whitespace
  set (\<open>is_space\<close>), and \<open>\d\<close> of \<open>re\<close> and \<open>float\<close> accept every Unicode decimal digit
  (\<open>py_digit\<close>); \<open>float\<close> strips a smaller set of whitespace (\<open>float_space\<close>). In
  JavaScript \<open>\d\<close> is the ASCII digits (\<open>is_digit\<close>) and whitespace is \<open>js_space\<close>.
\<close>

type_synonym pystr = "nat list"

definition ascii :: "string \<Rightarrow> pystr" where
  "ascii s = map of_char s"

definition EURO :: nat where "EURO = 8364"
definition NBSP :: nat where "NBSP = 160"
definition SPACE :: nat where "SPACE = 32"
definition COMMA :: nat where "COMMA = 44"
definition DOT :: nat where "DOT = 46"
definition DOLLAR :: nat where "DOLLAR = 36"
definition HYPHEN :: nat where "HYPHEN = 45"
definition ZERO_CHAR :: nat where "ZERO_CHAR = 48"
definition QUESTION :: nat where "QUESTION = 63"

definition is_digit :: "nat \<Rightarrow> bool" where
  "is_digit c \<longleftrightarrow> 48 \<le> c \<and> c \<le> 57"

definition is_space :: "nat \<Rightarrow> bool" where
  "is_space c \<longleftrightarrow>
     (9 \<le> c \<and> c \<le> 13) \<or> (28 \<le> c \<and> c \<le> 32) \<or> c = 133 \<or> c = 160 \<or> c = 5760 \<or>
     (8192 \<le> c \<and> c \<le> 8202) \<or> c = 8232 \<or> c = 8233 \<or> c = 8239 \<or> c = 8287 \<or> c = 12288"

text \<open>
  The decimal digits of Unicode (general category Nd, Unicode 14.0 as in the library of
  Python 3.11): 66 blocks of ten consecutive code points, each holding the digits 0 to 9
  in order. The list gives the code point of the zero of each block; the first block is
  the ASCII digits.
\<close>

definition unicode_digit_blocks :: "nat list" where
  "unicode_digit_blocks =
     [48, 1632, 1776, 1984, 2406, 2534, 2662, 2790, 2918, 3046, 3174, 3302, 3430, 3558,
      3664, 3792, 3872, 4160, 4240, 6112, 6160, 6470, 6608, 6784, 6800, 6992, 7088, 7232,
      7248, 42528, 43216, 43264, 43472, 43504, 43600, 44016, 65296, 66720, 68912, 69734,
      69872, 69942, 70096, 70384, 70736, 70864, 71248, 71360, 71472, 71904, 72016, 72784,
      73040, 73120, 92768, 92864, 93008, 120782, 120792, 120802, 120812, 120822, 123200,
      123632, 125264, 130032]"

definition py_digit_value :: "nat \<Rightarrow> nat option" where
  "py_digit_value c =
     map_option (\<lambda>z. c - z) (find (\<lambda>z. z \<le> c \<and> c < z + 10) unicode_digit_blocks)"

definition py_digit :: "nat \<Rightarrow> bool" where
  "py_digit c \<longleftrightarrow> py_digit_value c \<noteq> None"

text \<open>
  The whitespace \<open>float\<close> strips from both ends of its argument: it turns the whitespace
  beyond ASCII into spaces and then strips the whitespace of the C locale, so the four
  ASCII separators U+001C to U+001F, which \<open>str.strip\<close> and \<open>\s\<close> accept, are not
  stripped.
\<close>

definition float_space :: "nat \<Rightarrow> bool" where
  "float_space c \<longleftrightarrow> is_space c \<and> \<not> (28 \<le> c \<and> c \<le> 31)"

text \<open>The whitespace of JavaScript (\<open>\s\<close> of a regular expression, \<open>String.trim\<close>).\<close>

definition js_space :: "nat \<Rightarrow> bool" where
  "js_space c \<longleftrightarrow>
     (9 \<le> c \<and> c \<le> 13) \<or> c = 32 \<or> c = 160 \<or> c = 5760 \<or>
     (8192 \<le> c \<and> c \<le> 8202) \<or> c = 8232 \<or> c = 8233 \<or> c = 8239 \<or> c = 8287 \<or> c = 12288 \<or>
     c = 65279"

definition strip :: "pystr \<Rightarrow> pystr" where
  "strip s = rev (dropWhile is_space (rev (dropWhile is_space s)))"

definition js_trim :: "pystr \<Rightarrow> pystr" where
  "js_trim s = rev (dropWhile js_space (rev (dropWhile js_space s)))"

text \<open>\<open>s.replace(c, r)\<close> for a one-character pattern \<open>c\<close>.\<close>

definition replace_char :: "nat \<Rightarrow> pystr \<Rightarrow> pystr \<Rightarrow> pystr" where
  "replace_char c r s = concat (map (\<lambda>x. if x = c then r else [x]) s)"

text \<open>The value of a run of ASCII digits, read in base ten.\<close>

definition digits_value :: "pystr \<Rightarrow> nat" where
  "digits_value ds = foldl (\<lambda>acc c. 10 * acc + (c - 48)) 0 ds"

text \<open>The value of a run of Unicode decimal digits, read in base ten.\<close>

definition py_digits_value :: "pystr \<Rightarrow> nat" where
  "py_digits_value ds =
     foldl (\<lambda>acc c. 10 * acc + (case py_digit_value c of None \<Rightarrow> 0 | Some v \<Rightarrow> v)) 0 ds"

text \<open>
  The exceptions that can cross a function boundary in the modelled code. \<open>str_exn\<close> is
  \<open>str(e)\<close>, which the orchestrator writes into the error list.
\<close>

datatype exn =
    IndexError
  | OverflowError
  | AttributeError
  | TypeError
  | PlaywrightError pystr

fun str_exn :: "exn \<Rightarrow> pystr" where
  "str_exn IndexError = ascii ''list index out of range''"
| "str_exn OverflowError = ascii ''date value out of range''"
| "str_exn AttributeError = ascii ''object has no attribute''"
| "str_exn TypeError = ascii ''unhashable type''"
| "str_exn (PlaywrightError msg) = msg"

text \<open>
  A \<open>datetime.date\<close> is modelled by its proleptic Gregorian ordinal (\<open>date.toordinal()\<close>),
  which ranges from 1 (\<open>date.min\<close>) to 3652059 (\<open>date.max\<close>). Adding a \<open>timedelta\<close> of
  whole days raises \<open>OverflowError\<close> when the result leaves that range.
\<close>

type_synonym date = int

definition valid_date :: "date \<Rightarrow> bool" where
  "valid_date d \<longleftrightarrow> 1 \<le> d \<and> d \<le> 3652059"

definition date_add :: "date \<Rightarrow> int \<Rightarrow> exn + date" where
  "date_add d n = (if valid_date (d + n) then Inr (d + n) else Inl OverflowError)"

section \<open>Date Window Builder\<close>

text \<open>
  The list comprehension \<open>[today + timedelta(days=i) for i in ...]\<close>: it raises at the
  first offset whose date is out of range. \<open>date.today()\<close> reads the clock; the date it
  returns is the parameter \<open>today\<close>.
\<close>

fun add_days :: "date \<Rightarrow> int list \<Rightarrow> exn + date list" where
  "add_days today [] = Inr []"
| "add_days today (i # rest) =
     (case date_add today i of
        Inl e \<Rightarrow> Inl e
      | Inr d \<Rightarrow> (case add_days today rest of Inl e \<Rightarrow> Inl e | Inr ds \<Rightarrow> Inr (d # ds)))"

definition get_next_30_days :: "date \<Rightarrow> int option \<Rightarrow> exn + date list" where
  "get_next_30_days today max_dates =
     (case add_days today [1..30] of
        Inl e \<Rightarrow> Inl e
      | Inr days \<Rightarrow>
          Inr (case max_dates of
                 None \<Rightarrow> days
               | Some n \<Rightarrow> if n > 0 then take (nat n) days else days))"

definition get_dates_from_offsets :: "date \<Rightarrow> int list \<Rightarrow> exn + date list" where
  "get_dates_from_offsets today offsets = add_days today (sort offsets)"

section \<open>Price Text Normalizer\<close>

text \<open>
  The capture group \<open>(\d[\d\s]*(?:[.,]\d{2})?)\<close> matched at the head of a string: a digit,
  the longest run of digits and whitespace, and then a separator with two digits when they
  follow. The run is followed by neither a digit nor a space, so backtracking into it
  cannot make the optional group match: the greedy match is the only one.
\<close>

definition match_number :: "pystr \<Rightarrow> pystr option" where
  "match_number s =
     (case s of
        [] \<Rightarrow> None
      | c # cs \<Rightarrow>
          if \<not> py_digit c then None
          else
            let run = takeWhile (\<lambda>x. py_digit x \<or> is_space x) cs;
                rest = dropWhile (\<lambda>x. py_digit x \<or> is_space x) cs
            in Some (c # run @
                 (case rest of
                    p # a # b # _ \<Rightarrow>
                      if (p = DOT \<or> p = COMMA) \<and> py_digit a \<and> py_digit b then [p, a, b] else []
                  | _ \<Rightarrow> [])))"

text \<open>\<open>re.search(r"\<euro>\s*(...)", text)\<close>: the leftmost euro sign after which the group matches.\<close>

fun search_euro :: "pystr \<Rightarrow> pystr option" where
  "search_euro [] = None"
| "search_euro (c # cs) =
     (if c = EURO then
        (case match_number (dropWhile is_space cs) of
           Some g \<Rightarrow> Some g
         | None \<Rightarrow> search_euro cs)
      else search_euro cs)"

text \<open>\<open>re.search(r"(...)", text)\<close>: the leftmost digit starts the match.\<close>

fun search_number :: "pystr \<Rightarrow> pystr option" where
  "search_number [] = None"
| "search_number (c # cs) =
     (case match_number (c # cs) of
        Some g \<Rightarrow> Some g
      | None \<Rightarrow> search_number cs)"

text \<open>
  \<open>float(s)\<close> on the strings that reach it here: they start with a digit and hold
  digits, whitespace other than the plain space and at most one dot. \<open>float\<close> reads every
  Unicode decimal digit as the ASCII digit of the same value, strips the whitespace
  \<open>float_space\<close> from both ends and then wants digits, optionally followed by a dot and
  digits; anything else is a \<open>ValueError\<close> (the result \<open>None\<close>): whitespace inside the
  number, and a separator U+001C to U+001F also at its end. The amount is kept as the
  exact decimal it denotes; the comparisons with 10 and 10000 give the same answer on the
  nearest double.
\<close>

definition py_float :: "pystr \<Rightarrow> rat option" where
  "py_float s =
     (let t = rev (dropWhile float_space (rev (dropWhile float_space s)));
          ip = takeWhile py_digit t;
          rest = dropWhile py_digit t
      in if ip = [] then None
         else if rest = [] then Some (of_nat (py_digits_value ip))
         else if hd rest = DOT \<and> list_all py_digit (tl rest) then
           Some (of_nat (py_digits_value ip) +
                 of_nat (py_digits_value (tl rest)) / 10 ^ length (tl rest))
         else None)"

text \<open>
  Lines 74 to 84 of \<open>_parse_avg_price\<close>: everything before the range test. The argument is
  \<open>None\<close> for an absent string.
\<close>

definition parse_amount :: "pystr option \<Rightarrow> rat option" where
  "parse_amount formatted =
     (case formatted of
        None \<Rightarrow> None
      | Some f \<Rightarrow>
          if f = [] then None
          else
            let text = strip (replace_char NBSP [SPACE] f);
                m = (case search_euro text of Some g \<Rightarrow> Some g | None \<Rightarrow> search_number text)
            in (case m of
                  None \<Rightarrow> None
                | Some g \<Rightarrow>
                    let s = replace_char COMMA [DOT] (replace_char SPACE [] g)
                    in if s = [] then None else py_float s))"

definition parse_avg_price :: "pystr option \<Rightarrow> rat option" where
  "parse_avg_price formatted =
     (case parse_amount formatted of
        None \<Rightarrow> None
      | Some p \<Rightarrow> if p \<ge> 10 \<and> p < 10000 then Some p else None)"

section \<open>Calendar Locator: structured payload\<close>

text \<open>
  A decoded JSON payload. A mapping is kept as the list of its items in iteration order
  (a Python \<open>dict\<close> iterates in insertion order); its keys are distinct.
\<close>

datatype json =
    JNull
  | JBool bool
  | JNum rat
  | JStr pystr
  | JList "json list"
  | JDict "(pystr \<times> json) list"

definition dict_get :: "(pystr \<times> json) list \<Rightarrow> pystr \<Rightarrow> json option" where
  "dict_get kvs k = map_of kvs k"

text \<open>Python truthiness of a JSON value (\<open>not v\<close>, \<open>v or ...\<close>).\<close>

fun truthy :: "json \<Rightarrow> bool" where
  "truthy JNull = False"
| "truthy (JBool b) = b"
| "truthy (JNum n) = (n \<noteq> 0)"
| "truthy (JStr s) = (s \<noteq> [])"
| "truthy (JList xs) = (xs \<noteq> [])"
| "truthy (JDict kvs) = (kvs \<noteq> [])"

text \<open>\<open>_is_calendar_days_list\<close>, applied to the result of \<open>obj.get("days")\<close>.\<close>

fun is_calendar_days_list :: "json option \<Rightarrow> bool" where
  "is_calendar_days_list (Some (JList (JDict kvs # _))) = (dict_get kvs (ascii ''checkin'') \<noteq> None)"
| "is_calendar_days_list _ = False"

text \<open>
  \<open>_find_calendar_days\<close>. The two loops are the functions \<open>find_in_values\<close> (over
  \<open>obj.values()\<close>) and \<open>find_in_items\<close> (over a list). A result that is found is a
  non-empty list, so the test \<open>if found\<close> only asks whether it is \<open>None\<close>.
\<close>

fun find_calendar_days :: "json \<Rightarrow> json list option"
  and find_in_values :: "(pystr \<times> json) list \<Rightarrow> json list option"
  and find_in_items :: "json list \<Rightarrow> json list option"
where
  "find_calendar_days (JDict kvs) =
     (if is_calendar_days_list (dict_get kvs (ascii ''days''))
      then (case dict_get kvs (ascii ''days'') of Some (JList days) \<Rightarrow> Some days | _ \<Rightarrow> None)
      else find_in_values kvs)"
| "find_calendar_days (JList xs) = find_in_items xs"
| "find_calendar_days JNull = None"
| "find_calendar_days (JBool b) = None"
| "find_calendar_days (JNum n) = None"
| "find_calendar_days (JStr s) = None"
| "find_in_values [] = None"
| "find_in_values (kv # rest) =
     (case find_calendar_days (snd kv) of
        Some found \<Rightarrow> Some found
      | None \<Rightarrow> find_in_values rest)"
| "find_in_items [] = None"
| "find_in_items (item # rest) =
     (case find_calendar_days item of
        Some found \<Rightarrow> Some found
      | None \<Rightarrow> find_in_items rest)"

definition extract_calendar_from_body :: "json \<Rightarrow> json list option" where
  "extract_calendar_from_body body = (if \<not> truthy body then None else find_calendar_days body)"

text \<open>
  The sequences the search can return, in the order of the depth-first traversal: at a
  mapping its own \<open>days\<close> entry when it passes the check, then what its values hold, in
  iteration order; at a sequence what its items hold.
\<close>

fun candidates :: "json \<Rightarrow> json list list"
  and candidates_values :: "(pystr \<times> json) list \<Rightarrow> json list list"
  and candidates_items :: "json list \<Rightarrow> json list list"
where
  "candidates (JDict kvs) =
     (case dict_get kvs (ascii ''days'') of
        Some (JList days) \<Rightarrow>
          (if is_calendar_days_list (Some (JList days)) then [days] else []) @ candidates_values kvs
      | _ \<Rightarrow> candidates_values kvs)"
| "candidates (JList xs) = candidates_items xs"
| "candidates JNull = []"
| "candidates (JBool b) = []"
| "candidates (JNum n) = []"
| "candidates (JStr s) = []"
| "candidates_values [] = []"
| "candidates_values (kv # rest) = candidates (snd kv) @ candidates_values rest"
| "candidates_items [] = []"
| "candidates_items (item # rest) = candidates item @ candidates_items rest"

text \<open>
  The check as the specification words it: every entry of the sequence is a mapping with a
  check-in date field and a formatted-price field.
\<close>

definition entry_has_fields :: "json \<Rightarrow> bool" where
  "entry_has_fields e =
     (case e of
        JDict kvs \<Rightarrow>
          dict_get kvs (ascii ''checkin'') \<noteq> None \<and> dict_get kvs (ascii ''avgPriceFormatted'') \<noteq> None
      | _ \<Rightarrow> False)"

definition spec_calendar_days :: "json list \<Rightarrow> bool" where
  "spec_calendar_days days = list_all entry_has_fields days"

section \<open>Observations and the structured-payload merge\<close>

text \<open>
  An observation is the dictionary \<open>{"price": ..., "available": ...}\<close>. The calendar
  \<open>calendar_days\<close> is a dictionary from a key to an observation, kept as an association
  list in insertion order; \<open>AList.update\<close> is the assignment \<open>calendar_days[k] = v\<close>.
\<close>

record obs =
  obs_price :: "rat option"
  obs_available :: bool

text \<open>
  In \<open>_merge_days_into\<close> the key is whatever truthy, hashable value the entry holds under
  \<open>checkin\<close>: a string or a number (\<open>True\<close> and \<open>1\<close> are the same key).
\<close>

datatype key = KStr pystr | KNum rat

fun as_key :: "json \<Rightarrow> exn + key" where
  "as_key (JStr s) = Inr (KStr s)"
| "as_key (JNum n) = Inr (KNum n)"
| "as_key (JBool b) = Inr (KNum (if b then 1 else 0))"
| "as_key _ = Inl TypeError"

text \<open>\<open>(d.get("avgPriceFormatted") or "").strip()\<close>: only a string has \<open>strip\<close>.\<close>

definition formatted_of :: "(pystr \<times> json) list \<Rightarrow> exn + pystr" where
  "formatted_of kvs =
     (case dict_get kvs (ascii ''avgPriceFormatted'') of
        None \<Rightarrow> Inr []
      | Some v \<Rightarrow>
          if \<not> truthy v then Inr []
          else (case v of JStr s \<Rightarrow> Inr (strip s) | _ \<Rightarrow> Inl AttributeError))"

text \<open>
  One iteration of the loop of \<open>_merge_days_into\<close>. The function mutates the dictionary in
  place, so an exception leaves the entries merged before it: the loop returns the
  dictionary together with the exception that stopped it, if any.
\<close>

definition merge_day :: "(key \<times> obs) list \<Rightarrow> json \<Rightarrow> (key \<times> obs) list \<times> exn option" where
  "merge_day calendar_days d =
     (case d of
        JDict kvs \<Rightarrow>
          (case dict_get kvs (ascii ''checkin'') of
             None \<Rightarrow> (calendar_days, None)
           | Some checkin \<Rightarrow>
               if \<not> truthy checkin then (calendar_days, None)
               else
                 (case formatted_of kvs of
                    Inl e \<Rightarrow> (calendar_days, Some e)
                  | Inr formatted \<Rightarrow>
                      let available = (dict_get kvs (ascii ''available'') = Some (JBool True));
                          price = (if available then parse_avg_price (Some formatted) else None);
                          available' = (if price = None \<and> available \<and> ZERO_CHAR \<in> set formatted
                                        then False else available)
                      in (case as_key checkin of
                            Inl e \<Rightarrow> (calendar_days, Some e)
                          | Inr k \<Rightarrow>
                              (AList.update k \<lparr>obs_price = price, obs_available = available'\<rparr>
                                 calendar_days, None))))
      | _ \<Rightarrow> (calendar_days, Some AttributeError))"

fun merge_days_into :: "(key \<times> obs) list \<Rightarrow> json list \<Rightarrow> (key \<times> obs) list \<times> exn option" where
  "merge_days_into calendar_days [] = (calendar_days, None)"
| "merge_days_into calendar_days (d # days) =
     (case merge_day calendar_days d of
        (calendar_days', Some e) \<Rightarrow> (calendar_days', Some e)
      | (calendar_days', None) \<Rightarrow> merge_days_into calendar_days' days)"

section \<open>Calendar Locator: rendered grid\<close>

text \<open>
  What the script of \<open>_extract_calendar_from_dom\<close> reads from one cell: the date string
  (the cell's own \<open>data-date\<close>, else a descendant's, else an ancestor's, else empty), the
  text in which the price is looked for (the nested span's text, else the cell's), and
  whether the cell carries a disabled marker. A rendered page offers the three selections
  the script tries in turn.
\<close>

record cell =
  date_str :: pystr
  price_text :: pystr
  disabled :: bool

record dom =
  main_table_cells :: "cell list"
  data_date_elems :: "cell list"
  table_cells :: "cell list"

definition select_cells :: "dom \<Rightarrow> cell list" where
  "select_cells d =
     (let cells = main_table_cells d;
          cells = (if length cells < 5 then data_date_elems d else cells);
          cells = (if length cells < 5 then table_cells d else cells)
      in cells)"

text \<open>The date of a cell: an ISO prefix, else the first eight digits of the string.\<close>

definition iso_match :: "pystr \<Rightarrow> bool" where
  "iso_match s \<longleftrightarrow>
     length s \<ge> 10 \<and> list_all is_digit (take 4 s) \<and> s ! 4 = HYPHEN \<and>
     list_all is_digit (take 2 (drop 5 s)) \<and> s ! 7 = HYPHEN \<and> list_all is_digit (take 2 (drop 8 s))"

definition js_checkin :: "pystr \<Rightarrow> pystr" where
  "js_checkin dateStr =
     (if iso_match dateStr then take 10 dateStr
      else
        let digits = filter is_digit dateStr
        in if length digits \<ge> 8
           then take 4 digits @ [HYPHEN] @ take 2 (drop 4 digits) @ [HYPHEN] @ take 2 (drop 6 digits)
           else [])"

text \<open>
  The price of a cell: the leftmost currency sign followed by optional whitespace and a
  digit starts the match of \<open>priceRe\<close>; the group is the digit, the longest run of digits
  and whitespace, an optional separator and the digits after it. \<open>parseFloat\<close> reads the
  group with its whitespace removed and its comma turned into a dot.
\<close>

definition js_match_number :: "pystr \<Rightarrow> pystr option" where
  "js_match_number s =
     (case s of
        [] \<Rightarrow> None
      | c # cs \<Rightarrow>
          if \<not> is_digit c then None
          else
            let run = takeWhile (\<lambda>x. is_digit x \<or> js_space x) cs;
                rest = dropWhile (\<lambda>x. is_digit x \<or> js_space x) cs
            in Some (c # run @
                 (case rest of
                    [] \<Rightarrow> []
                  | p # after \<Rightarrow>
                      if p = DOT \<or> p = COMMA then p # takeWhile is_digit after
                      else takeWhile is_digit rest)))"

fun js_search_price :: "pystr \<Rightarrow> pystr option" where
  "js_search_price [] = None"
| "js_search_price (c # cs) =
     (if c = EURO \<or> c = DOLLAR then
        (case js_match_number (dropWhile js_space cs) of
           Some g \<Rightarrow> Some g
         | None \<Rightarrow> js_search_price cs)
      else js_search_price cs)"

definition parse_float_js :: "pystr \<Rightarrow> rat" where
  "parse_float_js s =
     (let ip = takeWhile is_digit s;
          rest = dropWhile is_digit s
      in case rest of
           [] \<Rightarrow> of_nat (digits_value ip)
         | p # after \<Rightarrow>
             let fp = takeWhile is_digit after
             in if p = DOT then of_nat (digits_value ip) + of_nat (digits_value fp) / 10 ^ length fp
                else of_nat (digits_value ip))"

definition js_price :: "pystr \<Rightarrow> rat option" where
  "js_price priceText =
     (case js_search_price priceText of
        None \<Rightarrow> None
      | Some g \<Rightarrow> Some (parse_float_js (replace_char COMMA [DOT] (filter (\<lambda>x. \<not> js_space x) g))))"

text \<open>
  The loop over the cells. \<open>out\<close> is the object the script fills; a date already present is
  written again only by an available cell.
\<close>

fun js_cells_loop :: "cell list \<Rightarrow> (pystr \<times> obs) list \<Rightarrow> (pystr \<times> obs) list" where
  "js_cells_loop [] out = out"
| "js_cells_loop (c # cells) out =
     (if date_str c = [] then js_cells_loop cells out
      else
        let checkin = js_checkin (date_str c)
        in if checkin = [] then js_cells_loop cells out
           else
             let price = js_price (js_trim (price_text c));
                 available = (\<not> disabled c \<and> (case price of None \<Rightarrow> False | Some p \<Rightarrow> p \<ge> 10))
             in if map_of out checkin = None \<or> available
                then js_cells_loop cells
                       (AList.update checkin
                          \<lparr>obs_price = (if available then price else None), obs_available = available\<rparr> out)
                else js_cells_loop cells out)"

definition js_calendar :: "dom \<Rightarrow> (pystr \<times> obs) list" where
  "js_calendar d = js_cells_loop (select_cells d) []"

section \<open>Single-Hotel Extraction Procedure\<close>

text \<open>
  The page is the browser's side of the procedure: for each call that can raise, the
  exception it raises, if any, and for the \<open>n\<close>-th evaluation of the calendar script the
  document it runs on (or the exception of \<open>page.evaluate\<close>). The delays, the consent
  click and the wait for the calendar swallow their own exceptions and return nothing.
\<close>

record page =
  goto :: "pystr \<Rightarrow> exn option"
  scroll_by :: "exn option"
  date_btn_wait_for :: "exn option"
  date_btn_scroll_into_view :: "exn option"
  date_btn_click :: "exn option"
  dom_at :: "nat \<Rightarrow> exn + dom"

record hotel =
  hotel_id :: pystr
  hotel_name :: pystr
  hotel_url :: pystr

record snapshot =
  hotelId :: pystr
  dateCheckin :: pystr
  price :: "rat option"
  currency :: pystr
  available :: bool

definition extract_calendar_from_dom :: "page \<Rightarrow> nat \<Rightarrow> exn + (pystr \<times> obs) list" where
  "extract_calendar_from_dom pg n =
     (case dom_at pg n of
        Inl e \<Rightarrow> Inl e
      | Inr d \<Rightarrow> Inr (js_calendar d))"

text \<open>\<open>for checkin, info in dom_data.items(): calendar_days[checkin] = info\<close>\<close>

definition assign_all :: "(pystr \<times> obs) list \<Rightarrow> (pystr \<times> obs) list \<Rightarrow> (pystr \<times> obs) list" where
  "assign_all calendar_days dom_data =
     foldl (\<lambda>cal (checkin, info). AList.update checkin info cal) calendar_days dom_data"

text \<open>
  The retry loop over \<open>range(3)\<close>. An exception of the extraction leaves the loop and the
  \<open>try\<close> block; the dictionary keeps what the earlier attempts wrote.
\<close>

fun retry_loop :: "page \<Rightarrow> nat \<Rightarrow> nat list \<Rightarrow> (pystr \<times> obs) list \<Rightarrow> (pystr \<times> obs) list \<times> exn option" where
  "retry_loop pg total_n [] calendar_days = (calendar_days, None)"
| "retry_loop pg total_n (attempt # rest) calendar_days =
     (case extract_calendar_from_dom pg attempt of
        Inl e \<Rightarrow> (calendar_days, Some e)
      | Inr dom_data \<Rightarrow>
          if dom_data \<noteq> [] then
            (let calendar_days' = assign_all calendar_days dom_data
             in if length calendar_days' \<ge> min 3 total_n then (calendar_days', None)
                else retry_loop pg total_n rest calendar_days')
          else retry_loop pg total_n rest calendar_days)"

text \<open>
  The \<open>try\<close> block of \<open>scrape_hotel_with_page\<close>: the observations collected, and the
  exception the \<open>except\<close> clause caught and printed, if any.
\<close>

definition collect_calendar :: "page \<Rightarrow> pystr \<Rightarrow> nat \<Rightarrow> (pystr \<times> obs) list \<times> exn option" where
  "collect_calendar pg url total_n =
     (case goto pg url of
        Some e \<Rightarrow> ([], Some e)
      | None \<Rightarrow>
     (case scroll_by pg of
        Some e \<Rightarrow> ([], Some e)
      | None \<Rightarrow>
     (case date_btn_wait_for pg of
        Some e \<Rightarrow> ([], Some e)
      | None \<Rightarrow>
     (case date_btn_scroll_into_view pg of
        Some e \<Rightarrow> ([], Some e)
      | None \<Rightarrow>
     (case date_btn_click pg of
        Some e \<Rightarrow> ([], Some e)
      | None \<Rightarrow> retry_loop pg total_n [0, 1, 2] [])))))"

text \<open>
  Step 6: one snapshot for a date. \<open>info\<close> is the observation found, \<open>None\<close> standing for
  the empty dictionary of \<open>calendar_days.get(checkin_str, {})\<close>.
\<close>

definition make_snapshot :: "hotel \<Rightarrow> (pystr \<times> obs) list \<Rightarrow> pystr \<Rightarrow> snapshot" where
  "make_snapshot h calendar_days checkin_str =
     (let info = map_of calendar_days checkin_str;
          price = (case info of None \<Rightarrow> None | Some i \<Rightarrow> obs_price i);
          available = (case info of None \<Rightarrow> False | Some i \<Rightarrow> price \<noteq> None)
      in \<lparr>hotelId = hotel_id h, dateCheckin = checkin_str, price = price,
          currency = ascii ''EUR'', available = available\<rparr>)"

definition build_url :: "(date \<Rightarrow> pystr) \<Rightarrow> hotel \<Rightarrow> date \<Rightarrow> date \<Rightarrow> pystr" where
  "build_url strftime h first next_day =
     (let sep = (if QUESTION \<in> set (hotel_url h) then ascii ''&'' else ascii ''?'')
      in hotel_url h @ sep @ ascii ''checkin='' @ strftime first @ ascii ''&checkout='' @ strftime next_day)"

text \<open>
  \<open>scrape_hotel_with_page\<close>. \<open>strftime\<close> stands for the library's
  \<open>date.strftime("%Y-%m-%d")\<close>. Reading \<open>dates[0]\<close> of an empty window and adding a day to
  \<open>date.max\<close> happen before the \<open>try\<close> block and are raised to the caller.
\<close>

definition scrape_hotel_with_page ::
  "(date \<Rightarrow> pystr) \<Rightarrow> page \<Rightarrow> hotel \<Rightarrow> date list \<Rightarrow> exn + snapshot list" where
  "scrape_hotel_with_page strftime pg h dates =
     (if dates = [] then Inl IndexError
      else
        (case date_add (last dates) 1 of
           Inl e \<Rightarrow> Inl e
         | Inr next_day \<Rightarrow>
             let url = build_url strftime h (hd dates) next_day;
                 calendar_days = fst (collect_calendar pg url (length dates));
                 snapshots = map (\<lambda>d. make_snapshot h calendar_days (strftime d)) dates
             in Inr (sort_key dateCheckin snapshots)))"

section \<open>Multi-Hotel Orchestrator\<close>

record stats =
  total_hotels :: nat
  total_snapshots :: nat
  successful_hotels :: nat
  failed_hotels :: nat
  errors :: "pystr list"

definition init_stats :: "hotel list \<Rightarrow> stats" where
  "init_stats hotels =
     \<lparr>total_hotels = length hotels, total_snapshots = 0, successful_hotels = 0,
      failed_hotels = 0, errors = []\<rparr>"

text \<open>
  The two outcomes of one hotel in the loops: the \<open>try\<close> body ran to its end, or the
  \<open>except\<close> clause ran. The accumulator is the pair \<open>(stats, all_snapshots)\<close>.
\<close>

definition on_success :: "snapshot list \<Rightarrow> stats \<times> snapshot list \<Rightarrow> stats \<times> snapshot list" where
  "on_success snapshots acc =
     (case acc of (st, all_snapshots) \<Rightarrow>
        (st\<lparr>total_snapshots := total_snapshots st + length snapshots,
            successful_hotels := successful_hotels st + 1\<rparr>,
         all_snapshots @ snapshots))"

definition on_failure :: "hotel \<Rightarrow> pystr \<Rightarrow> stats \<times> snapshot list \<Rightarrow> stats \<times> snapshot list" where
  "on_failure h msg acc =
     (case acc of (st, all_snapshots) \<Rightarrow>
        (st\<lparr>failed_hotels := failed_hotels st + 1,
            errors := errors st @ [hotel_name h @ ascii '': '' @ msg]\<rparr>,
         all_snapshots))"

text \<open>
  The session factory: \<open>create_stealth_browser_full env i\<close> is the page of the session
  acquired for the hotel numbered \<open>i\<close> (or the exception of the acquisition), and
  \<open>new_page env i\<close> the tab opened for it in a shared session. Releasing a session
  (\<open>close_browser_full\<close>) and closing a tab swallow their exceptions. The pause between
  hotels only waits.
\<close>

record env =
  create_stealth_browser_full :: "nat \<Rightarrow> exn + page"
  new_page :: "nat \<Rightarrow> exn + page"

text \<open>\<open>enumerate(hotels, 1)\<close>\<close>

definition enumerate1 :: "'a list \<Rightarrow> (nat \<times> 'a) list" where
  "enumerate1 xs = zip [1..<Suc (length xs)] xs"

fun strategy_1_loop ::
  "(date \<Rightarrow> pystr) \<Rightarrow> env \<Rightarrow> date list \<Rightarrow> (nat \<times> hotel) list \<Rightarrow> stats \<times> snapshot list \<Rightarrow>
   stats \<times> snapshot list" where
  "strategy_1_loop strftime ev dates [] acc = acc"
| "strategy_1_loop strftime ev dates (ih # rest) acc =
     strategy_1_loop strftime ev dates rest
       (case create_stealth_browser_full ev (fst ih) of
          Inl e \<Rightarrow> on_failure (snd ih) (str_exn e) acc
        | Inr pg \<Rightarrow>
            (case scrape_hotel_with_page strftime pg (snd ih) dates of
               Inr snapshots \<Rightarrow> on_success snapshots acc
             | Inl e \<Rightarrow> on_failure (snd ih) (str_exn e) acc))"

definition strategy_1_isolated ::
  "(date \<Rightarrow> pystr) \<Rightarrow> env \<Rightarrow> hotel list \<Rightarrow> date list \<Rightarrow> stats \<times> snapshot list" where
  "strategy_1_isolated strftime ev hotels dates =
     strategy_1_loop strftime ev dates (enumerate1 hotels) (init_stats hotels, [])"

text \<open>
  The shared session: the first hotel uses the page the session came with, every later
  one a new tab. When opening the tab raises, \<open>page\<close> still names the previous tab.
\<close>

fun strategy_2_loop ::
  "(date \<Rightarrow> pystr) \<Rightarrow> env \<Rightarrow> date list \<Rightarrow> page \<Rightarrow> (nat \<times> hotel) list \<Rightarrow> stats \<times> snapshot list \<Rightarrow>
   stats \<times> snapshot list" where
  "strategy_2_loop strftime ev dates pg [] acc = acc"
| "strategy_2_loop strftime ev dates pg (ih # rest) acc =
     (case (if fst ih > 1 then new_page ev (fst ih) else Inr pg) of
        Inl e \<Rightarrow> strategy_2_loop strftime ev dates pg rest (on_failure (snd ih) (str_exn e) acc)
      | Inr pg' \<Rightarrow>
          strategy_2_loop strftime ev dates pg' rest
            (case scrape_hotel_with_page strftime pg' (snd ih) dates of
               Inr snapshots \<Rightarrow> on_success snapshots acc
             | Inl e \<Rightarrow> on_failure (snd ih) (str_exn e) acc))"

definition strategy_2_shared_browser ::
  "(date \<Rightarrow> pystr) \<Rightarrow> env \<Rightarrow> hotel list \<Rightarrow> date list \<Rightarrow> exn + stats \<times> snapshot list" where
  "strategy_2_shared_browser strftime ev hotels dates =
     (case create_stealth_browser_full ev 1 of
        Inl e \<Rightarrow> Inl e
      | Inr pg \<Rightarrow> Inr (strategy_2_loop strftime ev dates pg (enumerate1 hotels) (init_stats hotels, [])))"

text \<open>
  The worker of the parallel strategy: its result is the dictionary
  \<open>{"ok": True, "snapshots": ...}\<close> (\<open>Inr\<close>) or \<open>{"ok": False, "error": str(e)}\<close> (\<open>Inl\<close>).
  Each worker has a session of its own, so what it returns does not depend on the others.
\<close>

definition scrape_one :: "(date \<Rightarrow> pystr) \<Rightarrow> env \<Rightarrow> date list \<Rightarrow> hotel \<Rightarrow> nat \<Rightarrow> pystr + snapshot list" where
  "scrape_one strftime ev dates h idx =
     (case create_stealth_browser_full ev idx of
        Inl e \<Rightarrow> Inl (str_exn e)
      | Inr pg \<Rightarrow>
          (case scrape_hotel_with_page strftime pg h dates of
             Inr snapshots \<Rightarrow> Inr snapshots
           | Inl e \<Rightarrow> Inl (str_exn e)))"

text \<open>The loop over \<open>as_completed(futures)\<close>, given the futures in the order they complete.\<close>

fun strategy_3_loop ::
  "(date \<Rightarrow> pystr) \<Rightarrow> env \<Rightarrow> date list \<Rightarrow> (nat \<times> hotel) list \<Rightarrow> stats \<times> snapshot list \<Rightarrow>
   stats \<times> snapshot list" where
  "strategy_3_loop strftime ev dates [] acc = acc"
| "strategy_3_loop strftime ev dates (ih # rest) acc =
     strategy_3_loop strftime ev dates rest
       (case scrape_one strftime ev dates (snd ih) (fst ih) of
          Inr snapshots \<Rightarrow> on_success snapshots acc
        | Inl msg \<Rightarrow> on_failure (snd ih) msg acc)"

text \<open>
  The order of completion is decided by the thread pool. It is the parameter
  \<open>completion\<close>: the positions of the submitted futures, each once, in the order
  \<open>as_completed\<close> yields them.
\<close>

definition is_completion_order :: "nat list \<Rightarrow> nat \<Rightarrow> bool" where
  "is_completion_order completion n \<longleftrightarrow> sort completion = [0..<n]"

definition strategy_3_parallel ::
  "(date \<Rightarrow> pystr) \<Rightarrow> env \<Rightarrow> nat list \<Rightarrow> hotel list \<Rightarrow> date list \<Rightarrow> stats \<times> snapshot list" where
  "strategy_3_parallel strftime ev completion hotels dates =
     strategy_3_loop strftime ev dates (map (\<lambda>k. enumerate1 hotels ! k) completion)
       (init_stats hotels, [])"

text \<open>\<open>scrape_multiple_hotels\<close>: the window, then the strategy selected.\<close>

definition scrape_multiple_hotels ::
  "date \<Rightarrow> (date \<Rightarrow> pystr) \<Rightarrow> env \<Rightarrow> nat list \<Rightarrow> hotel list \<Rightarrow> int option \<Rightarrow> int list option \<Rightarrow> int \<Rightarrow>
   exn + stats \<times> snapshot list" where
  "scrape_multiple_hotels today strftime ev completion hotels max_dates_per_hotel date_offsets strategy =
     (case (case date_offsets of
              Some offsets \<Rightarrow> get_dates_from_offsets today offsets
            | None \<Rightarrow> get_next_30_days today max_dates_per_hotel) of
        Inl e \<Rightarrow> Inl e
      | Inr dates0 \<Rightarrow>
          let dates = sort dates0
          in if strategy = 1 then Inr (strategy_1_isolated strftime ev hotels dates)
             else if strategy = 2 then strategy_2_shared_browser strftime ev hotels dates
             else if strategy = 3 then Inr (strategy_3_parallel strftime ev completion hotels dates)
             else Inr (strategy_1_isolated strftime ev hotels dates))"

text \<open>
  What one hotel contributes to the flat list: the snapshots its procedure returned, and
  nothing when its session or its procedure raised.
\<close>

definition hotel_block :: "(date \<Rightarrow> pystr) \<Rightarrow> env \<Rightarrow> date list \<Rightarrow> nat \<times> hotel \<Rightarrow> snapshot list" where
  "hotel_block strftime ev dates ih =
     (case scrape_one strftime ev dates (snd ih) (fst ih) of
        Inr snapshots \<Rightarrow> snapshots
      | Inl msg \<Rightarrow> [])"

text \<open>The pages the shared session gives to the hotels, in input order.\<close>

fun shared_pages :: "env \<Rightarrow> page \<Rightarrow> (nat \<times> hotel) list \<Rightarrow> (exn + page) list" where
  "shared_pages ev pg [] = []"
| "shared_pages ev pg (ih # rest) =
     (case (if fst ih > 1 then new_page ev (fst ih) else Inr pg) of
        Inl e \<Rightarrow> Inl e # shared_pages ev pg rest
      | Inr pg' \<Rightarrow> Inr pg' # shared_pages ev pg' rest)"

definition shared_block :: "(date \<Rightarrow> pystr) \<Rightarrow> date list \<Rightarrow> (exn + page) \<times> (nat \<times> hotel) \<Rightarrow> snapshot list" where
  "shared_block strftime dates p =
     (case fst p of
        Inl e \<Rightarrow> []
      | Inr pg \<Rightarrow>
          (case scrape_hotel_with_page strftime pg (snd (snd p)) dates of
             Inr snapshots \<Rightarrow> snapshots
           | Inl e \<Rightarrow> []))"

section \<open>The library's date format\<close>

text \<open>
  The procedure takes \<open>strftime\<close> as a parameter. For concrete runs it is the ISO format
  of the library: the ordinal is split into year, month and day as \<open>datetime\<close> does, and
  printed as \<open>YYYY-MM-DD\<close>.
\<close>

definition days_before_month :: "int \<Rightarrow> int" where
  "days_before_month m = [0, 31, 59, 90, 120, 151, 181, 212, 243, 273, 304, 334] ! nat (m - 1)"

definition days_in_month :: "int \<Rightarrow> int" where
  "days_in_month m = [31, 28, 31, 30, 31, 30, 31, 31, 30, 31, 30, 31] ! nat (m - 1)"

definition ord2ymd :: "int \<Rightarrow> int \<times> int \<times> int" where
  "ord2ymd ordinal =
     (let n = ordinal - 1;
          n400 = n div 146097; n = n mod 146097;
          n100 = n div 36524; n = n mod 36524;
          n4 = n div 1461; n = n mod 1461;
          n1 = n div 365; n = n mod 365;
          year = n400 * 400 + 1 + n100 * 100 + n4 * 4 + n1
      in if n1 = 4 \<or> n100 = 4 then (year - 1, 12, 31)
         else
           let leapyear = (n1 = 3 \<and> (n4 \<noteq> 24 \<or> n100 = 3));
               month = (n + 50) div 32;
               preceding = days_before_month month + (if month > 2 \<and> leapyear then 1 else 0)
           in if preceding > n
              then (year, month - 1,
                    n - (preceding - (days_in_month (month - 1) + (if month - 1 = 2 \<and> leapyear then 1 else 0))) + 1)
              else (year, month, n - preceding + 1))"

definition pad2 :: "int \<Rightarrow> pystr" where
  "pad2 n = [48 + nat (n div 10 mod 10), 48 + nat (n mod 10)]"

definition pad4 :: "int \<Rightarrow> pystr" where
  "pad4 n = [48 + nat (n div 1000 mod 10), 48 + nat (n div 100 mod 10)] @ pad2 n"

definition iso_format :: "date \<Rightarrow> pystr" where
  "iso_format d = (case ord2ymd d of (y, m, dd) \<Rightarrow> pad4 y @ [HYPHEN] @ pad2 m @ [HYPHEN] @ pad2 dd)"

section \<open>Concrete runs\<close>

text \<open>
  The data of the concrete runs used below: the 4th of November 2026 as today, a window of
  two nights, three hotels, a page on which every step succeeds and the calendar shows a
  price for the first night, and a page whose navigation times out.
\<close>

definition today_ex :: date where
  "today_ex = 739924"

definition window_ex :: "date list" where
  "window_ex = [739925, 739926]"

definition hotel_a :: hotel where
  "hotel_a = \<lparr>hotel_id = ascii ''h-a'', hotel_name = ascii ''Alpha'', hotel_url = ascii ''https://b.example/a.html''\<rparr>"

definition hotel_b :: hotel where
  "hotel_b = \<lparr>hotel_id = ascii ''h-b'', hotel_name = ascii ''Beta'', hotel_url = ascii ''https://b.example/b.html?x=1''\<rparr>"

definition hotel_c :: hotel where
  "hotel_c = \<lparr>hotel_id = ascii ''h-c'', hotel_name = ascii ''Gamma'', hotel_url = ascii ''https://b.example/c.html''\<rparr>"

definition cell_priced :: cell where
  "cell_priced = \<lparr>date_str = ascii ''2026-11-05'', price_text = EURO # ascii '' 120'', disabled = False\<rparr>"

definition cell_blank :: cell where
  "cell_blank = \<lparr>date_str = ascii ''2026-11-05'', price_text = [], disabled = False\<rparr>"

definition dom_of :: "cell list \<Rightarrow> dom" where
  "dom_of cells = \<lparr>main_table_cells = [], data_date_elems = [], table_cells = cells\<rparr>"

definition page_ok :: page where
  "page_ok =
     \<lparr>goto = (\<lambda>url. None), scroll_by = None, date_btn_wait_for = None,
      date_btn_scroll_into_view = None, date_btn_click = None,
      dom_at = (\<lambda>n. Inr (dom_of [cell_priced]))\<rparr>"

definition page_nav_fail :: page where
  "page_nav_fail = page_ok\<lparr>goto := (\<lambda>url. Some (PlaywrightError (ascii ''Timeout 25000ms exceeded'')))\<rparr>"

text \<open>A page whose calendar shows the price at the first reading and has lost it at the second.\<close>

definition page_glitch :: page where
  "page_glitch = page_ok\<lparr>dom_at := (\<lambda>n. Inr (dom_of (if n = 0 then [cell_priced] else [cell_blank])))\<rparr>"

definition env_ok :: env where
  "env_ok = \<lparr>create_stealth_browser_full = (\<lambda>i. Inr page_ok), new_page = (\<lambda>i. Inr page_ok)\<rparr>"

text \<open>The second hotel's navigation fails; everything else succeeds.\<close>

definition env_nav_fail :: env where
  "env_nav_fail =
     \<lparr>create_stealth_browser_full = (\<lambda>i. Inr (if i = 2 then page_nav_fail else page_ok)),
      new_page = (\<lambda>i. Inr (if i = 2 then page_nav_fail else page_ok))\<rparr>"

text \<open>The session of the second hotel cannot be acquired.\<close>

definition env_launch_fail :: env where
  "env_launch_fail =
     \<lparr>create_stealth_browser_full =
        (\<lambda>i. if i = 2 then Inl (PlaywrightError (ascii ''launch failed'')) else Inr page_ok),
      new_page = (\<lambda>i. Inr page_ok)\<rparr>"

definition day_entry :: "string \<Rightarrow> bool \<Rightarrow> pystr \<Rightarrow> json" where
  "day_entry checkin avail formatted =
     JDict [(ascii ''checkin'', JStr (ascii checkin)), (ascii ''available'', JBool avail),
            (ascii ''avgPriceFormatted'', JStr formatted)]"

text \<open>
  The observations the procedure holds when it assembles the snapshots of a window: what
  the \<open>try\<close> block collected for the address it builds.
\<close>

definition collected_calendar :: "(date \<Rightarrow> pystr) \<Rightarrow> page \<Rightarrow> hotel \<Rightarrow> date list \<Rightarrow> (pystr \<times> obs) list" where
  "collected_calendar strftime pg h dates =
     fst (collect_calendar pg (build_url strftime h (hd dates) (last dates + 1)) (length dates))"

text \<open>The snapshot of a hotel for a date, by its price; available exactly when priced.\<close>

definition snap_ex :: "hotel \<Rightarrow> string \<Rightarrow> rat option \<Rightarrow> snapshot" where
  "snap_ex h checkin p =
     \<lparr>hotelId = hotel_id h, dateCheckin = ascii checkin, price = p, currency = ascii ''EUR'',
      available = (p \<noteq> None)\<rparr>"

definition hotels_ex :: "hotel list" where
  "hotels_ex = [hotel_a, hotel_b, hotel_c]"

text \<open>An order of completion in which the third hotel finishes first.\<close>

definition completion_ex :: "nat list" where
  "completion_ex = [2, 0, 1]"

text \<open>
  Two payloads: one whose \<open>days\<close> list has a first entry with a check-in date and a
  second entry that is a number, and one whose list of complete day entries sits under
  another key.
\<close>

definition payload_first_only :: json where
  "payload_first_only =
     JDict [(ascii ''data'',
             JList [JNum 1,
                    JDict [(ascii ''days'',
                            JList [JDict [(ascii ''checkin'', JStr (ascii ''2026-02-11''))],
                                   JNum 5])]])]"

definition payload_other_key :: json where
  "payload_other_key =
     JDict [(ascii ''calendar'',
             JList [day_entry ''2026-02-11'' True (EURO # ascii '' 152'')])]"

section \<open>Consistency of the run statistics\<close>

text \<open>
  What the loops maintain after \<open>k\<close> hotels, and what the returned pair satisfies for a
  list of \<open>n\<close> hotels.
\<close>

definition loop_inv :: "nat \<Rightarrow> stats \<times> snapshot list \<Rightarrow> bool" where
  "loop_inv k acc \<longleftrightarrow>
     successful_hotels (fst acc) + failed_hotels (fst acc) = k \<and>
     length (errors (fst acc)) = failed_hotels (fst acc) \<and>
     total_snapshots (fst acc) = length (snd acc)"

definition stats_consistent :: "nat \<Rightarrow> stats \<times> snapshot list \<Rightarrow> bool" where
  "stats_consistent n r \<longleftrightarrow>
     total_hotels (fst r) = n \<and>
     successful_hotels (fst r) + failed_hotels (fst r) = n \<and>
     length (errors (fst r)) = failed_hotels (fst r) \<and>
     total_snapshots (fst r) = length (snd r)"

section \<open>Evaluation of the character classes and the normalizer\<close>

text \<open>
  The decimal digits below U+0080 are the ASCII digits; the euro sign and the
  non-breaking space are no digits; the fullwidth digits have their values.
\<close>

lemma py_digit_value_ascii:
  "c < 128 \<Longrightarrow> py_digit_value c = (if 48 \<le> c \<and> c \<le> 57 then Some (c - 48) else None)"
  by (simp add: py_digit_value_def unicode_digit_blocks_def)

lemma py_digit_ascii: "c < 128 \<Longrightarrow> py_digit c = (48 \<le> c \<and> c \<le> 57)"
  by (simp add: py_digit_def py_digit_value_ascii)

lemma py_digit_value_samples:
  "py_digit_value 8364 = None"
  "py_digit_value 160 = None"
  "py_digit_value 65297 = Some 1"
  "py_digit_value 65298 = Some 2"
  "py_digit_value 65301 = Some 5"
  by (simp_all add: py_digit_value_def unicode_digit_blocks_def)

lemma py_digit_samples:
  "\<not> py_digit 8364" "\<not> py_digit 160" "py_digit 65297" "py_digit 65298" "py_digit 65301"
  by (simp_all add: py_digit_def py_digit_value_samples)

lemmas char_defs = EURO_def NBSP_def SPACE_def COMMA_def DOT_def DOLLAR_def HYPHEN_def
  ZERO_CHAR_def QUESTION_def is_digit_def is_space_def js_space_def float_space_def
  py_digit_ascii py_digit_value_ascii py_digit_samples py_digit_value_samples

lemmas parse_defs = parse_avg_price_def parse_amount_def ascii_def strip_def replace_char_def
  match_number_def py_float_def py_digits_value_def

lemma parse_152: "parse_avg_price (Some (EURO # ascii '' 152'')) = Some 152"
  by (simp add: parse_defs char_defs)

lemma parse_0: "parse_avg_price (Some (EURO # ascii '' 0'')) = None"
  by (simp add: parse_defs char_defs)

lemma parse_3: "parse_avg_price (Some (EURO # ascii '' 3'')) = None"
  by (simp add: parse_defs char_defs)

lemma parse_empty: "parse_avg_price (Some []) = None \<and> parse_avg_price None = None"
  by (simp add: parse_avg_price_def parse_amount_def)

lemma parse_1250: "parse_avg_price (Some (EURO # ascii '' 1 250,50'')) = Some 1250.5"
  by (simp add: parse_defs char_defs)

lemma parse_1250_nbsp:
  "parse_avg_price (Some (EURO # NBSP # ascii ''1'' @ NBSP # ascii ''250,50'')) = Some 1250.5"
  by (simp add: parse_defs char_defs)

lemma parse_fullwidth: "parse_avg_price (Some [EURO, SPACE, 65297, 65301, 65298]) = Some 152"
  by (simp add: parse_defs char_defs)

lemma parse_separator:
  "parse_avg_price (Some (EURO # ascii '' 152'' @ 28 # ascii ''nuit'')) = None"
  by (simp add: parse_defs char_defs)

lemma parse_trailing_tab:
  "parse_avg_price (Some (EURO # ascii '' 152'' @ 9 # ascii ''nuit'')) = Some 152"
  by (simp add: parse_defs char_defs)

lemma parse_avg_price_iff:
  "parse_avg_price f = Some p \<longleftrightarrow> parse_amount f = Some p \<and> 10 \<le> p \<and> p < 10000"
  by (auto simp: parse_avg_price_def split: option.splits)

section \<open>Price Text Normalizer: the bound\<close>

text \<open>
  Claim C4. For every input, the normalizer returns an amount exactly when the text
  parses to an amount that lies in the half-open interval from 10 to 10000, and that
  amount is the one parsed; otherwise the result is absent. The euro sign followed by 152
  gives 152; by 0 or by 3, nothing; the empty and the absent input, nothing; the euro sign
  followed by 1 250,50 gives 1250.50, with plain or with non-breaking spaces. The digits
  of other scripts count: the fullwidth digits of 152 give 152. An amount followed by the
  separator U+001C and a word gives nothing, since \<open>float\<close> refuses it; followed by a tab
  and a word it gives the amount.
\<close>

theorem parse_avg_price_range:
  "(parse_avg_price f = Some p \<longleftrightarrow> parse_amount f = Some p \<and> 10 \<le> p \<and> p < 10000)
   \<and> parse_avg_price (Some (EURO # ascii '' 152'')) = Some 152
   \<and> parse_avg_price (Some (EURO # ascii '' 0'')) = None
   \<and> parse_avg_price (Some (EURO # ascii '' 3'')) = None
   \<and> parse_avg_price (Some []) = None
   \<and> parse_avg_price None = None
   \<and> parse_avg_price (Some (EURO # ascii '' 1 250,50'')) = Some 1250.5
   \<and> parse_avg_price (Some (EURO # NBSP # ascii ''1'' @ NBSP # ascii ''250,50'')) = Some 1250.5
   \<and> parse_avg_price (Some [EURO, SPACE, 65297, 65301, 65298]) = Some 152
   \<and> parse_avg_price (Some (EURO # ascii '' 152'' @ 28 # ascii ''nuit'')) = None
   \<and> parse_avg_price (Some (EURO # ascii '' 152'' @ 9 # ascii ''nuit'')) = Some 152"
  using parse_avg_price_iff parse_152 parse_0 parse_3 parse_empty parse_1250 parse_1250_nbsp
    parse_fullwidth parse_separator parse_trailing_tab
  by blast

theorem parse_avg_price_range_witness:
  "parse_amount (Some (EURO # ascii '' 152'')) = Some 152 \<and> (10::rat) \<le> 152 \<and> (152::rat) < 10000"
  using parse_avg_price_range [of "Some (EURO # ascii '' 152'')" 152]
  by (simp add: parse_defs char_defs)

section \<open>Sorting by a key\<close>

lemma dateCheckin_make_snapshot: "dateCheckin (make_snapshot h cal c) = c"
  by (simp add: make_snapshot_def Let_def)

lemma make_snapshot_available:
  "available (make_snapshot h cal c) = (price (make_snapshot h cal c) \<noteq> None)"
  by (simp add: make_snapshot_def Let_def split: option.splits)

lemma make_snapshot_absent:
  "map_of cal c = None \<Longrightarrow> price (make_snapshot h cal c) = None \<and> \<not> available (make_snapshot h cal c)"
  by (simp add: make_snapshot_def)

lemma make_snapshot_fixed:
  "hotelId (make_snapshot h cal c) = hotel_id h \<and> currency (make_snapshot h cal c) = ascii ''EUR''"
  by (simp add: make_snapshot_def Let_def)

lemma scrape_ok:
  assumes "dates \<noteq> []" and "valid_date (last dates + 1)"
  shows "scrape_hotel_with_page strftime pg h dates =
     Inr (sort_key dateCheckin
       (map (\<lambda>d. make_snapshot h (collected_calendar strftime pg h dates) (strftime d)) dates))"
  using assms by (simp add: scrape_hotel_with_page_def date_add_def collected_calendar_def Let_def)

lemma insort_key_mono_on:
  assumes "\<forall>a\<in>insert x (set ys). \<forall>b\<in>insert x (set ys). a < b \<longrightarrow> f a < f b"
  shows "insort_key f x ys = insort x ys"
  using assms
proof (induction ys)
  case Nil
  then show ?case by simp
next
  case (Cons y ys)
  have "f x \<le> f y \<longleftrightarrow> x \<le> y"
  proof
    assume le: "f x \<le> f y"
    show "x \<le> y"
    proof (rule ccontr)
      assume "\<not> x \<le> y"
      then have "y < x" by simp
      then have "f y < f x" using Cons.prems by simp
      with le show False by simp
    qed
  next
    assume "x \<le> y"
    then consider "x = y" | "x < y" by (auto simp: le_less)
    then show "f x \<le> f y"
    proof cases
      case 1
      then show ?thesis by simp
    next
      case 2
      then have "f x < f y" using Cons.prems by simp
      then show ?thesis by simp
    qed
  qed
  then show ?case using Cons by simp
qed

lemma sort_key_mono_on:
  assumes "\<forall>a\<in>set xs. \<forall>b\<in>set xs. a < b \<longrightarrow> f a < f b"
  shows "sort_key f xs = sort xs"
  using assms
proof (induction xs)
  case Nil
  then show ?case by simp
next
  case (Cons x xs)
  then have "sort_key f xs = sort xs" by simp
  moreover have "insort_key f x (sort xs) = insort x (sort xs)"
    using Cons.prems by (intro insort_key_mono_on) simp
  ultimately show ?case by simp
qed

lemma insort_key_map_comp:
  "insort_key k (g x) (map g ys) = map g (insort_key (\<lambda>x. k (g x)) x ys)"
  by (induction ys) simp_all

lemma sort_key_map_comp: "sort_key k (map g xs) = map g (sort_key (\<lambda>x. k (g x)) xs)"
  by (induction xs) (simp_all add: insort_key_map_comp)

lemma map_key_sort_key: "map k (sort_key k xs) = sort (map k xs)"
  by (induction xs) (simp_all add: insort_key_map_comp [of "\<lambda>x. x" k, symmetric])

lemma collect_nav_fail:
  "goto pg url = Some e \<Longrightarrow> collect_calendar pg url n = ([], Some e)"
  by (simp add: collect_calendar_def)

section \<open>The snapshots of a window\<close>

lemma snaps_each:
  assumes "s \<in> set (sort_key dateCheckin (map (\<lambda>d. make_snapshot h cal (f d)) dates))"
  shows "hotelId s = hotel_id h \<and> currency s = ascii ''EUR'' \<and>
      s = make_snapshot h cal (dateCheckin s) \<and>
      (map_of cal (dateCheckin s) = None \<longrightarrow> price s = None \<and> \<not> available s) \<and>
      (available s \<longleftrightarrow> price s \<noteq> None)"
proof -
  from assms obtain d where s: "s = make_snapshot h cal (f d)" by auto
  show ?thesis
    unfolding s
    using make_snapshot_fixed [of h cal "f d"] make_snapshot_absent [of cal "f d" h]
      make_snapshot_available [of h cal "f d"]
    by (simp add: dateCheckin_make_snapshot)
qed

lemma snaps_mono:
  assumes "\<forall>a\<in>set dates. \<forall>b\<in>set dates. a < b \<longrightarrow> f a < f b"
  shows "sort_key dateCheckin (map (\<lambda>d. make_snapshot h cal (f d)) dates) =
     map (\<lambda>d. make_snapshot h cal (f d)) (sort dates)"
proof -
  have "sort_key dateCheckin (map (\<lambda>d. make_snapshot h cal (f d)) dates) =
     map (\<lambda>d. make_snapshot h cal (f d)) (sort_key f dates)"
    by (simp only: sort_key_map_comp dateCheckin_make_snapshot)
  also have "sort_key f dates = sort dates"
    using assms by (rule sort_key_mono_on)
  finally show ?thesis .
qed

lemma snaps_keys:
  "map dateCheckin (sort_key dateCheckin (map (\<lambda>d. make_snapshot h cal (f d)) dates)) =
     sort (map f dates)"
proof -
  have "map dateCheckin (map (\<lambda>d. make_snapshot h cal (f d)) dates) = map f dates"
    by (simp add: dateCheckin_make_snapshot)
  then show ?thesis by (simp only: map_key_sort_key)
qed

lemma snaps_unavailable:
  assumes "s \<in> set (sort_key dateCheckin (map (\<lambda>d. make_snapshot h [] (f d)) dates))"
  shows "price s = None \<and> \<not> available s"
proof -
  from assms obtain d where s: "s = make_snapshot h [] (f d)" by auto
  show ?thesis unfolding s by (simp add: make_snapshot_def)
qed

lemma nav_fail_empty:
  assumes "\<forall>url. goto pg url \<noteq> None"
  shows "collected_calendar strftime pg h dates = []"
proof -
  from assms obtain e where "goto pg (build_url strftime h (hd dates) (last dates + 1)) = Some e"
    by blast
  then show ?thesis
    by (simp add: collected_calendar_def collect_nav_fail)
qed

text \<open>
  Claim C3. For a hotel and a non-empty window of distinct dates (whose last date has a
  next day), the procedure returns, whatever the page does, a list with exactly one
  snapshot per date of the window: as many snapshots as dates, their check-in strings
  distinct and exactly the formatted dates, sorted ascending by check-in string. Each
  snapshot is the one assembled for its date, and a date with no observation has no price
  and is unavailable. When the format is increasing on the window, as the ISO format is,
  the list follows the dates in ascending order. When no observation was collected, and
  in particular when the navigation fails, the full window is still returned, every
  snapshot unavailable.
\<close>

theorem single_hotel_window:
  assumes "dates \<noteq> []" and "valid_date (last dates + 1)"
    and "distinct dates" and "inj_on strftime (set dates)"
  shows "\<exists>snaps. scrape_hotel_with_page strftime pg h dates = Inr snaps
     \<and> length snaps = length dates
     \<and> distinct (map dateCheckin snaps)
     \<and> set (map dateCheckin snaps) = strftime ` set dates
     \<and> sorted (map dateCheckin snaps)
     \<and> (\<forall>s\<in>set snaps. hotelId s = hotel_id h \<and> currency s = ascii ''EUR'' \<and>
           s = make_snapshot h (collected_calendar strftime pg h dates) (dateCheckin s) \<and>
           (map_of (collected_calendar strftime pg h dates) (dateCheckin s) = None \<longrightarrow>
              price s = None \<and> \<not> available s))
     \<and> ((\<forall>a\<in>set dates. \<forall>b\<in>set dates. a < b \<longrightarrow> strftime a < strftime b) \<longrightarrow>
           snaps = map (\<lambda>d. make_snapshot h (collected_calendar strftime pg h dates) (strftime d))
                     (sort dates))
     \<and> (collected_calendar strftime pg h dates = [] \<longrightarrow>
           (\<forall>s\<in>set snaps. price s = None \<and> \<not> available s))
     \<and> ((\<forall>url. goto pg url \<noteq> None) \<longrightarrow> (\<forall>s\<in>set snaps. price s = None \<and> \<not> available s))"
proof -
  define cal where "cal = collected_calendar strftime pg h dates"
  define snaps where
    "snaps = sort_key dateCheckin (map (\<lambda>d. make_snapshot h cal (strftime d)) dates)"
  have run: "scrape_hotel_with_page strftime pg h dates = Inr snaps"
    unfolding snaps_def cal_def using assms(1,2) by (rule scrape_ok)
  have keys: "map dateCheckin snaps = sort (map strftime dates)"
    unfolding snaps_def by (rule snaps_keys)
  have len: "length snaps = length dates"
    unfolding snaps_def by simp
  have "distinct (map strftime dates)"
    using assms(3,4) by (simp add: distinct_map)
  then have dist: "distinct (map dateCheckin snaps)"
    unfolding keys by simp
  have keyset: "set (map dateCheckin snaps) = strftime ` set dates"
    unfolding keys by simp
  have srt: "sorted (map dateCheckin snaps)"
    unfolding keys by simp
  have each: "\<forall>s\<in>set snaps. hotelId s = hotel_id h \<and> currency s = ascii ''EUR'' \<and>
      s = make_snapshot h cal (dateCheckin s) \<and>
      (map_of cal (dateCheckin s) = None \<longrightarrow> price s = None \<and> \<not> available s)"
  proof
    fix s assume "s \<in> set snaps"
    then show "hotelId s = hotel_id h \<and> currency s = ascii ''EUR'' \<and>
      s = make_snapshot h cal (dateCheckin s) \<and>
      (map_of cal (dateCheckin s) = None \<longrightarrow> price s = None \<and> \<not> available s)"
      unfolding snaps_def using snaps_each [of s h cal strftime dates] by blast
  qed
  have mono: "(\<forall>a\<in>set dates. \<forall>b\<in>set dates. a < b \<longrightarrow> strftime a < strftime b) \<longrightarrow>
      snaps = map (\<lambda>d. make_snapshot h cal (strftime d)) (sort dates)"
    unfolding snaps_def using snaps_mono [of dates strftime h cal] by blast
  have none: "cal = [] \<longrightarrow> (\<forall>s\<in>set snaps. price s = None \<and> \<not> available s)"
  proof (intro impI ballI)
    fix s assume "cal = []" and "s \<in> set snaps"
    then show "price s = None \<and> \<not> available s"
      unfolding snaps_def using snaps_unavailable [of s h strftime dates] by simp
  qed
  have nav: "(\<forall>url. goto pg url \<noteq> None) \<longrightarrow> (\<forall>s\<in>set snaps. price s = None \<and> \<not> available s)"
  proof
    assume "\<forall>url. goto pg url \<noteq> None"
    then have "cal = []" unfolding cal_def by (rule nav_fail_empty)
    with none show "\<forall>s\<in>set snaps. price s = None \<and> \<not> available s" by (rule mp)
  qed
  show ?thesis
    unfolding cal_def [symmetric]
    by (intro exI [of _ snaps] conjI run len dist keyset srt each mono none nav)
qed

text \<open>
  Claim C9. Every snapshot the procedure returns is available exactly when it has a price;
  this is how a snapshot is assembled from any observations, and an observation that says
  available without a price gives an unavailable snapshot.
\<close>

theorem snapshot_available_iff_price:
  assumes "dates \<noteq> []" and "valid_date (last dates + 1)"
  shows "(\<exists>snaps. scrape_hotel_with_page strftime pg h dates = Inr snaps
       \<and> (\<forall>s\<in>set snaps. available s \<longleftrightarrow> price s \<noteq> None))
     \<and> (available (make_snapshot h cal c) \<longleftrightarrow> price (make_snapshot h cal c) \<noteq> None)
     \<and> \<not> available (make_snapshot h ((c, \<lparr>obs_price = None, obs_available = True\<rparr>) # cal) c)"
proof (intro conjI)
  define snaps where
    "snaps = sort_key dateCheckin
       (map (\<lambda>d. make_snapshot h (collected_calendar strftime pg h dates) (strftime d)) dates)"
  have run: "scrape_hotel_with_page strftime pg h dates = Inr snaps"
    unfolding snaps_def using assms by (rule scrape_ok)
  have each: "\<forall>s\<in>set snaps. available s \<longleftrightarrow> price s \<noteq> None"
  proof
    fix s assume "s \<in> set snaps"
    then show "available s \<longleftrightarrow> price s \<noteq> None"
      unfolding snaps_def
      using snaps_each [of s h "collected_calendar strftime pg h dates" strftime dates] by blast
  qed
  show "\<exists>snaps. scrape_hotel_with_page strftime pg h dates = Inr snaps
       \<and> (\<forall>s\<in>set snaps. available s \<longleftrightarrow> price s \<noteq> None)"
    by (intro exI [of _ snaps] conjI run each)
  show "available (make_snapshot h cal c) \<longleftrightarrow> price (make_snapshot h cal c) \<noteq> None"
    by (rule make_snapshot_available)
  show "\<not> available (make_snapshot h ((c, \<lparr>obs_price = None, obs_available = True\<rparr>) # cal) c)"
    by (simp add: make_snapshot_def)
qed

section \<open>Concrete runs of the procedure\<close>

lemmas iso_defs = iso_format_def ord2ymd_def pad4_def pad2_def days_before_month_def
  days_in_month_def Let_def

lemma iso_ex:
  "iso_format 739925 = ascii ''2026-11-05'' \<and> iso_format 739926 = ascii ''2026-11-06''"
  by (simp add: iso_defs HYPHEN_def ascii_def)

lemmas js_defs = js_calendar_def select_cells_def dom_of_def js_checkin_def iso_match_def
  js_price_def js_match_number_def parse_float_js_def js_trim_def

lemma js_calendar_priced:
  "js_calendar (dom_of [cell_priced]) =
     [(ascii ''2026-11-05'', \<lparr>obs_price = Some 120, obs_available = True\<rparr>)]"
  by (simp add: js_defs cell_priced_def ascii_def replace_char_def digits_value_def char_defs)

lemma js_calendar_blank:
  "js_calendar (dom_of [cell_blank]) =
     [(ascii ''2026-11-05'', \<lparr>obs_price = None, obs_available = False\<rparr>)]"
  by (simp add: js_defs cell_blank_def ascii_def replace_char_def digits_value_def char_defs)

lemma collect_page_ok:
  "collect_calendar page_ok url 2 =
     ([(ascii ''2026-11-05'', \<lparr>obs_price = Some 120, obs_available = True\<rparr>)], None)"
  by (simp add: collect_calendar_def page_ok_def extract_calendar_from_dom_def
      js_calendar_priced assign_all_def)

lemma collect_page_glitch:
  "collect_calendar page_glitch url 2 =
     ([(ascii ''2026-11-05'', \<lparr>obs_price = None, obs_available = False\<rparr>)], None)"
  by (simp add: collect_calendar_def page_glitch_def page_ok_def extract_calendar_from_dom_def
      js_calendar_priced js_calendar_blank assign_all_def)

lemma window_ex_facts:
  "window_ex \<noteq> [] \<and> valid_date (last window_ex + 1) \<and> distinct window_ex \<and>
   length window_ex = 2 \<and> sort window_ex = window_ex"
  by (simp add: window_ex_def valid_date_def)

lemma scrape_page_ok:
  "scrape_hotel_with_page iso_format page_ok h window_ex =
     Inr [snap_ex h ''2026-11-05'' (Some 120), snap_ex h ''2026-11-06'' None]"
proof -
  have cal: "collected_calendar iso_format page_ok h window_ex =
      [(ascii ''2026-11-05'', \<lparr>obs_price = Some 120, obs_available = True\<rparr>)]"
    using window_ex_facts by (simp add: collected_calendar_def collect_page_ok)
  have "scrape_hotel_with_page iso_format page_ok h window_ex =
     Inr (sort_key dateCheckin
       (map (\<lambda>d. make_snapshot h (collected_calendar iso_format page_ok h window_ex) (iso_format d))
          window_ex))"
    using window_ex_facts by (intro scrape_ok) simp_all
  also have "\<dots> = Inr [snap_ex h ''2026-11-05'' (Some 120), snap_ex h ''2026-11-06'' None]"
    unfolding cal
    by (simp add: window_ex_def iso_ex make_snapshot_def snap_ex_def ascii_def)
  finally show ?thesis .
qed

lemma scrape_page_nav_fail:
  "scrape_hotel_with_page iso_format page_nav_fail h window_ex =
     Inr [snap_ex h ''2026-11-05'' None, snap_ex h ''2026-11-06'' None]"
proof -
  have cal: "collected_calendar iso_format page_nav_fail h window_ex = []"
    by (rule nav_fail_empty) (simp add: page_nav_fail_def)
  have "scrape_hotel_with_page iso_format page_nav_fail h window_ex =
     Inr (sort_key dateCheckin
       (map (\<lambda>d. make_snapshot h (collected_calendar iso_format page_nav_fail h window_ex) (iso_format d))
          window_ex))"
    using window_ex_facts by (intro scrape_ok) simp_all
  also have "\<dots> = Inr [snap_ex h ''2026-11-05'' None, snap_ex h ''2026-11-06'' None]"
    unfolding cal
    by (simp add: window_ex_def iso_ex make_snapshot_def snap_ex_def ascii_def)
  finally show ?thesis .
qed

lemma scrape_page_glitch:
  "scrape_hotel_with_page iso_format page_glitch h window_ex =
     Inr [snap_ex h ''2026-11-05'' None, snap_ex h ''2026-11-06'' None]"
proof -
  have cal: "collected_calendar iso_format page_glitch h window_ex =
      [(ascii ''2026-11-05'', \<lparr>obs_price = None, obs_available = False\<rparr>)]"
    using window_ex_facts by (simp add: collected_calendar_def collect_page_glitch)
  have "scrape_hotel_with_page iso_format page_glitch h window_ex =
     Inr (sort_key dateCheckin
       (map (\<lambda>d. make_snapshot h (collected_calendar iso_format page_glitch h window_ex) (iso_format d))
          window_ex))"
    using window_ex_facts by (intro scrape_ok) simp_all
  also have "\<dots> = Inr [snap_ex h ''2026-11-05'' None, snap_ex h ''2026-11-06'' None]"
    unfolding cal
    by (simp add: window_ex_def iso_ex make_snapshot_def snap_ex_def ascii_def)
  finally show ?thesis .
qed

section \<open>The loops of the orchestrator\<close>

lemma length_enumerate1: "length (enumerate1 xs) = length xs"
  by (simp add: enumerate1_def del: upt_Suc)

lemma map_snd_enumerate1: "map snd (enumerate1 xs) = xs"
  by (simp add: enumerate1_def del: upt_Suc)

lemma on_success_simps:
  "snd (on_success s acc) = snd acc @ s"
  "total_hotels (fst (on_success s acc)) = total_hotels (fst acc)"
  "total_snapshots (fst (on_success s acc)) = total_snapshots (fst acc) + length s"
  "successful_hotels (fst (on_success s acc)) = successful_hotels (fst acc) + 1"
  "failed_hotels (fst (on_success s acc)) = failed_hotels (fst acc)"
  "errors (fst (on_success s acc)) = errors (fst acc)"
  by (simp_all add: on_success_def split: prod.splits)

lemma on_failure_simps:
  "snd (on_failure h m acc) = snd acc"
  "total_hotels (fst (on_failure h m acc)) = total_hotels (fst acc)"
  "total_snapshots (fst (on_failure h m acc)) = total_snapshots (fst acc)"
  "successful_hotels (fst (on_failure h m acc)) = successful_hotels (fst acc)"
  "failed_hotels (fst (on_failure h m acc)) = failed_hotels (fst acc) + 1"
  "errors (fst (on_failure h m acc)) = errors (fst acc) @ [hotel_name h @ ascii '': '' @ m]"
  by (simp_all add: on_failure_def split: prod.splits)

lemma loop_inv_success: "loop_inv k acc \<Longrightarrow> loop_inv (Suc k) (on_success s acc)"
  by (simp add: loop_inv_def on_success_simps)

lemma loop_inv_failure: "loop_inv k acc \<Longrightarrow> loop_inv (Suc k) (on_failure h m acc)"
  by (simp add: loop_inv_def on_failure_simps)

lemma loop_inv_init: "loop_inv 0 (init_stats hotels, [])"
  by (simp add: loop_inv_def init_stats_def)

text \<open>The step of the isolated loop is the step of the parallel loop.\<close>

lemma isolated_step:
  "(case create_stealth_browser_full ev i of
      Inl e \<Rightarrow> on_failure h (str_exn e) acc
    | Inr pg \<Rightarrow>
        (case scrape_hotel_with_page f pg h dates of
           Inr snapshots \<Rightarrow> on_success snapshots acc
         | Inl e \<Rightarrow> on_failure h (str_exn e) acc)) =
   (case scrape_one f ev dates h i of
      Inr snapshots \<Rightarrow> on_success snapshots acc
    | Inl msg \<Rightarrow> on_failure h msg acc)"
  by (simp add: scrape_one_def split: sum.splits)

lemma strategy_1_loop_eq: "strategy_1_loop f ev dates ihs acc = strategy_3_loop f ev dates ihs acc"
  by (induction ihs arbitrary: acc) (simp_all add: isolated_step)

lemma step3_snd:
  "snd (case scrape_one f ev dates (snd ih) (fst ih) of
          Inr snapshots \<Rightarrow> on_success snapshots acc
        | Inl msg \<Rightarrow> on_failure (snd ih) msg acc) = snd acc @ hotel_block f ev dates ih"
  by (simp add: hotel_block_def on_success_simps on_failure_simps split: sum.splits)

lemma step3_inv:
  "loop_inv k acc \<Longrightarrow>
   loop_inv (Suc k) (case scrape_one f ev dates (snd ih) (fst ih) of
          Inr snapshots \<Rightarrow> on_success snapshots acc
        | Inl msg \<Rightarrow> on_failure (snd ih) msg acc)"
  by (simp add: loop_inv_success loop_inv_failure split: sum.splits)

lemma step3_total:
  "total_hotels (fst (case scrape_one f ev dates (snd ih) (fst ih) of
          Inr snapshots \<Rightarrow> on_success snapshots acc
        | Inl msg \<Rightarrow> on_failure (snd ih) msg acc)) = total_hotels (fst acc)"
  by (simp add: on_success_simps on_failure_simps split: sum.splits)

lemma loop3_snd:
  "snd (strategy_3_loop f ev dates ihs acc) = snd acc @ concat (map (hotel_block f ev dates) ihs)"
  by (induction ihs arbitrary: acc) (simp_all add: step3_snd)

lemma loop3_inv:
  "loop_inv k acc \<Longrightarrow> loop_inv (k + length ihs) (strategy_3_loop f ev dates ihs acc)"
proof (induction ihs arbitrary: acc k)
  case Nil
  then show ?case by simp
next
  case (Cons ih ihs)
  from Cons.prems have "loop_inv (Suc k) (case scrape_one f ev dates (snd ih) (fst ih) of
          Inr snapshots \<Rightarrow> on_success snapshots acc
        | Inl msg \<Rightarrow> on_failure (snd ih) msg acc)"
    by (rule step3_inv)
  from Cons.IH [OF this] show ?case by simp
qed

lemma loop3_total:
  "total_hotels (fst (strategy_3_loop f ev dates ihs acc)) = total_hotels (fst acc)"
  by (induction ihs arbitrary: acc) (simp_all add: step3_total)

lemma consistentI:
  "loop_inv n r \<Longrightarrow> total_hotels (fst r) = n \<Longrightarrow> stats_consistent n r"
  by (simp add: loop_inv_def stats_consistent_def)

lemma strategy_1_consistent:
  "stats_consistent (length hotels) (strategy_1_isolated f ev hotels dates)"
proof (rule consistentI)
  show "loop_inv (length hotels) (strategy_1_isolated f ev hotels dates)"
    unfolding strategy_1_isolated_def strategy_1_loop_eq
    using loop3_inv [OF loop_inv_init [of hotels], where ihs = "enumerate1 hotels"]
    by (simp add: length_enumerate1)
  show "total_hotels (fst (strategy_1_isolated f ev hotels dates)) = length hotels"
    unfolding strategy_1_isolated_def strategy_1_loop_eq
    by (simp add: loop3_total init_stats_def)
qed

lemma strategy_3_consistent:
  assumes "is_completion_order completion (length hotels)"
  shows "stats_consistent (length hotels) (strategy_3_parallel f ev completion hotels dates)"
proof (rule consistentI)
  have "length (sort completion) = length [0..<length hotels]"
    using assms by (simp only: is_completion_order_def)
  then have len: "length completion = length hotels" by simp
  show "loop_inv (length hotels) (strategy_3_parallel f ev completion hotels dates)"
    unfolding strategy_3_parallel_def
    using loop3_inv [OF loop_inv_init [of hotels],
        where ihs = "map (\<lambda>k. enumerate1 hotels ! k) completion"]
    by (simp add: len)
  show "total_hotels (fst (strategy_3_parallel f ev completion hotels dates)) = length hotels"
    unfolding strategy_3_parallel_def
    by (simp add: loop3_total init_stats_def)
qed

text \<open>The shared session.\<close>

lemma loop2_snd:
  "snd (strategy_2_loop f ev dates pg ihs acc) =
     snd acc @ concat (map (shared_block f dates) (zip (shared_pages ev pg ihs) ihs))"
proof (induction ihs arbitrary: acc pg)
  case Nil
  then show ?case by simp
next
  case (Cons ih ihs)
  show ?case
  proof (cases "if fst ih > 1 then new_page ev (fst ih) else Inr pg")
    case (Inl e)
    then show ?thesis
      by (simp add: Cons.IH shared_block_def on_failure_simps)
  next
    case (Inr pg')
    then show ?thesis
      by (simp add: Cons.IH shared_block_def on_failure_simps on_success_simps split: sum.splits)
  qed
qed

lemma loop2_inv:
  "loop_inv k acc \<Longrightarrow> loop_inv (k + length ihs) (strategy_2_loop f ev dates pg ihs acc)"
proof (induction ihs arbitrary: acc k pg)
  case Nil
  then show ?case by simp
next
  case (Cons ih ihs)
  show ?case
  proof (cases "if fst ih > 1 then new_page ev (fst ih) else Inr pg")
    case (Inl e)
    from Cons.prems have "loop_inv (Suc k) (on_failure (snd ih) (str_exn e) acc)"
      by (rule loop_inv_failure)
    from Cons.IH [OF this] Inl show ?thesis by simp
  next
    case (Inr pg')
    from Cons.prems have "loop_inv (Suc k)
        (case scrape_hotel_with_page f pg' (snd ih) dates of
           Inr snapshots \<Rightarrow> on_success snapshots acc
         | Inl e \<Rightarrow> on_failure (snd ih) (str_exn e) acc)"
      by (simp add: loop_inv_success loop_inv_failure split: sum.splits)
    from Cons.IH [OF this] Inr show ?thesis by simp
  qed
qed

lemma loop2_total:
  "total_hotels (fst (strategy_2_loop f ev dates pg ihs acc)) = total_hotels (fst acc)"
proof (induction ihs arbitrary: acc pg)
  case Nil
  then show ?case by simp
next
  case (Cons ih ihs)
  show ?case
  proof (cases "if fst ih > 1 then new_page ev (fst ih) else Inr pg")
    case (Inl e)
    then show ?thesis by (simp add: Cons.IH on_failure_simps)
  next
    case (Inr pg')
    then show ?thesis
      by (simp add: Cons.IH on_failure_simps on_success_simps split: sum.splits)
  qed
qed

lemma strategy_2_consistent:
  assumes "create_stealth_browser_full ev 1 = Inr pg"
  shows "\<exists>r. strategy_2_shared_browser f ev hotels dates = Inr r \<and> stats_consistent (length hotels) r"
proof -
  let ?r = "strategy_2_loop f ev dates pg (enumerate1 hotels) (init_stats hotels, [])"
  have run: "strategy_2_shared_browser f ev hotels dates = Inr ?r"
    using assms by (simp add: strategy_2_shared_browser_def)
  have "loop_inv (length hotels) ?r"
    using loop2_inv [OF loop_inv_init [of hotels], where ihs = "enumerate1 hotels"]
    by (simp add: length_enumerate1)
  moreover have "total_hotels (fst ?r) = length hotels"
    by (simp add: loop2_total init_stats_def)
  ultimately have "stats_consistent (length hotels) ?r" by (rule consistentI)
  with run show ?thesis by blast
qed

lemma completion_mset:
  assumes "is_completion_order completion (length xs)"
  shows "mset (map (\<lambda>k. xs ! k) completion) = mset xs"
proof -
  have "mset completion = mset (sort completion)" by simp
  also have "\<dots> = mset [0..<length xs]"
    using assms by (simp only: is_completion_order_def)
  finally have "mset (map (\<lambda>k. xs ! k) completion) = mset (map (\<lambda>k. xs ! k) [0..<length xs])"
    by (metis mset_map)
  then show ?thesis by (simp add: map_nth)
qed

section \<open>Navigation failures and the statistics\<close>

lemma scrape_one_valid:
  assumes "dates \<noteq> []" and "valid_date (last dates + 1)"
  shows "scrape_one f ev dates h i =
     (case create_stealth_browser_full ev i of
        Inl e \<Rightarrow> Inl (str_exn e)
      | Inr pg \<Rightarrow>
          Inr (sort_key dateCheckin
                 (map (\<lambda>d. make_snapshot h (collected_calendar f pg h dates) (f d)) dates)))"
  by (simp add: scrape_one_def scrape_ok [OF assms] split: sum.splits)

lemma loop3_failed:
  "failed_hotels (fst (strategy_3_loop f ev dates ihs acc)) =
     failed_hotels (fst acc) +
     length (filter (\<lambda>ih. isl (scrape_one f ev dates (snd ih) (fst ih))) ihs)"
  by (induction ihs arbitrary: acc)
     (simp_all add: on_success_simps on_failure_simps split: sum.splits)

lemma loop3_successful:
  "successful_hotels (fst (strategy_3_loop f ev dates ihs acc)) =
     successful_hotels (fst acc) +
     length (filter (\<lambda>ih. \<not> isl (scrape_one f ev dates (snd ih) (fst ih))) ihs)"
  by (induction ihs arbitrary: acc)
     (simp_all add: on_success_simps on_failure_simps split: sum.splits)

lemma loop3_errors:
  "errors (fst (strategy_3_loop f ev dates ihs acc)) =
     errors (fst acc) @
     map (\<lambda>ih. hotel_name (snd ih) @ ascii '': '' @ projl (scrape_one f ev dates (snd ih) (fst ih)))
       (filter (\<lambda>ih. isl (scrape_one f ev dates (snd ih) (fst ih))) ihs)"
  by (induction ihs arbitrary: acc)
     (simp_all add: on_success_simps on_failure_simps split: sum.splits)

lemma scrape_one_isl:
  assumes "dates \<noteq> []" and "valid_date (last dates + 1)"
  shows "isl (scrape_one f ev dates h i) = isl (create_stealth_browser_full ev i)"
    and "isl (create_stealth_browser_full ev i) \<Longrightarrow>
         projl (scrape_one f ev dates h i) = str_exn (projl (create_stealth_browser_full ev i))"
  by (auto simp: scrape_one_valid [OF assms] split: sum.splits)

lemma hotel_block_valid:
  assumes "dates \<noteq> []" and "valid_date (last dates + 1)"
    and "create_stealth_browser_full ev (fst ih) = Inr pg"
  shows "hotel_block f ev dates ih =
     sort_key dateCheckin
       (map (\<lambda>d. make_snapshot (snd ih) (collected_calendar f pg (snd ih) dates) (f d)) dates)"
  by (simp add: hotel_block_def scrape_one_valid [OF assms(1,2)] assms(3))

text \<open>
  Claim C2, as amended. Under the isolated strategy, on a non-empty window, the counters
  depend only on the acquisition of the sessions: the hotels counted as failed are those
  whose session could not be acquired, each with one error entry made of its name and the
  message; all others are counted as successful. Every hotel whose session was acquired
  contributes a full window, and when its navigation fails that window is the window of
  unavailable snapshots; the navigation failure is printed by the procedure and reaches
  neither the failure counter nor the error list.
\<close>

theorem navigation_failure_not_counted:
  assumes "dates \<noteq> []" and "valid_date (last dates + 1)"
  shows "failed_hotels (fst (strategy_1_isolated f ev hotels dates)) =
       length (filter (\<lambda>ih. isl (create_stealth_browser_full ev (fst ih))) (enumerate1 hotels))
     \<and> successful_hotels (fst (strategy_1_isolated f ev hotels dates)) =
       length (filter (\<lambda>ih. \<not> isl (create_stealth_browser_full ev (fst ih))) (enumerate1 hotels))
     \<and> errors (fst (strategy_1_isolated f ev hotels dates)) =
       map (\<lambda>ih. hotel_name (snd ih) @ ascii '': '' @
                  str_exn (projl (create_stealth_browser_full ev (fst ih))))
         (filter (\<lambda>ih. isl (create_stealth_browser_full ev (fst ih))) (enumerate1 hotels))
     \<and> snd (strategy_1_isolated f ev hotels dates) =
       concat (map (hotel_block f ev dates) (enumerate1 hotels))
     \<and> (\<forall>ih\<in>set (enumerate1 hotels). \<forall>pg. create_stealth_browser_full ev (fst ih) = Inr pg \<longrightarrow>
          length (hotel_block f ev dates ih) = length dates \<and>
          ((\<forall>url. goto pg url \<noteq> None) \<longrightarrow>
             hotel_block f ev dates ih =
               sort_key dateCheckin (map (\<lambda>d. make_snapshot (snd ih) [] (f d)) dates)))"
proof (intro conjI)
  note isl = scrape_one_isl [OF assms]
  show "failed_hotels (fst (strategy_1_isolated f ev hotels dates)) =
       length (filter (\<lambda>ih. isl (create_stealth_browser_full ev (fst ih))) (enumerate1 hotels))"
    by (simp add: strategy_1_isolated_def strategy_1_loop_eq loop3_failed isl(1) init_stats_def)
  show "successful_hotels (fst (strategy_1_isolated f ev hotels dates)) =
       length (filter (\<lambda>ih. \<not> isl (create_stealth_browser_full ev (fst ih))) (enumerate1 hotels))"
    by (simp add: strategy_1_isolated_def strategy_1_loop_eq loop3_successful isl(1) init_stats_def)
  show "errors (fst (strategy_1_isolated f ev hotels dates)) =
       map (\<lambda>ih. hotel_name (snd ih) @ ascii '': '' @
                  str_exn (projl (create_stealth_browser_full ev (fst ih))))
         (filter (\<lambda>ih. isl (create_stealth_browser_full ev (fst ih))) (enumerate1 hotels))"
    by (simp add: strategy_1_isolated_def strategy_1_loop_eq loop3_errors isl init_stats_def
        cong: map_cong)
  show "snd (strategy_1_isolated f ev hotels dates) =
       concat (map (hotel_block f ev dates) (enumerate1 hotels))"
    by (simp add: strategy_1_isolated_def strategy_1_loop_eq loop3_snd)
  show "\<forall>ih\<in>set (enumerate1 hotels). \<forall>pg. create_stealth_browser_full ev (fst ih) = Inr pg \<longrightarrow>
          length (hotel_block f ev dates ih) = length dates \<and>
          ((\<forall>url. goto pg url \<noteq> None) \<longrightarrow>
             hotel_block f ev dates ih =
               sort_key dateCheckin (map (\<lambda>d. make_snapshot (snd ih) [] (f d)) dates))"
  proof (intro ballI allI impI conjI)
    fix ih :: "nat \<times> hotel" and pg
    assume pg: "create_stealth_browser_full ev (fst ih) = Inr pg"
    note blk = hotel_block_valid [OF assms pg]
    show "length (hotel_block f ev dates ih) = length dates"
      by (simp add: blk)
    assume "\<forall>url. goto pg url \<noteq> None"
    then have "collected_calendar f pg (snd ih) dates = []"
      by (rule nav_fail_empty)
    then show "hotel_block f ev dates ih =
        sort_key dateCheckin (map (\<lambda>d. make_snapshot (snd ih) [] (f d)) dates)"
      by (simp add: blk)
  qed
qed

lemma enumerate1_hotels_ex: "enumerate1 hotels_ex = [(1, hotel_a), (2, hotel_b), (3, hotel_c)]"
  by (simp add: enumerate1_def hotels_ex_def)

lemma length_hotels_ex: "length hotels_ex = 3"
  by (simp add: hotels_ex_def)

lemma run_nav_fail:
  "strategy_1_isolated iso_format env_nav_fail hotels_ex window_ex =
     (\<lparr>total_hotels = 3, total_snapshots = 6, successful_hotels = 3, failed_hotels = 0, errors = []\<rparr>,
      [snap_ex hotel_a ''2026-11-05'' (Some 120), snap_ex hotel_a ''2026-11-06'' None,
       snap_ex hotel_b ''2026-11-05'' None, snap_ex hotel_b ''2026-11-06'' None,
       snap_ex hotel_c ''2026-11-05'' (Some 120), snap_ex hotel_c ''2026-11-06'' None])"
  by (simp add: strategy_1_isolated_def enumerate1_hotels_ex env_nav_fail_def scrape_page_ok
      scrape_page_nav_fail on_success_def init_stats_def length_hotels_ex)

text \<open>
  Claim C2, as stated, fails: in the run over three hotels in which the navigation of the
  second one fails and everything else succeeds, no hotel is counted as failed, three are
  counted as successful and the error list is empty.
\<close>

theorem navigation_failure_counted_counterexample:
  "goto page_nav_fail [] \<noteq> None
   \<and> create_stealth_browser_full env_nav_fail 2 = Inr page_nav_fail
   \<and> failed_hotels (fst (strategy_1_isolated iso_format env_nav_fail hotels_ex window_ex)) = 0
   \<and> successful_hotels (fst (strategy_1_isolated iso_format env_nav_fail hotels_ex window_ex)) = 3
   \<and> errors (fst (strategy_1_isolated iso_format env_nav_fail hotels_ex window_ex)) = []"
proof -
  have "goto page_nav_fail [] \<noteq> None"
    by (simp add: page_nav_fail_def)
  moreover have "create_stealth_browser_full env_nav_fail 2 = Inr page_nav_fail"
    by (simp add: env_nav_fail_def)
  ultimately show ?thesis
    by (simp add: run_nav_fail)
qed

text \<open>The run over three hotels in which the navigation of the second fails.\<close>

theorem navigation_failure_not_counted_witness:
  "window_ex \<noteq> [] \<and> valid_date (last window_ex + 1)
   \<and> create_stealth_browser_full env_nav_fail 2 = Inr page_nav_fail
   \<and> failed_hotels (fst (strategy_1_isolated iso_format env_nav_fail hotels_ex window_ex)) = 0
   \<and> successful_hotels (fst (strategy_1_isolated iso_format env_nav_fail hotels_ex window_ex)) = 3
   \<and> errors (fst (strategy_1_isolated iso_format env_nav_fail hotels_ex window_ex)) = []
   \<and> hotel_block iso_format env_nav_fail window_ex (2, hotel_b) =
       [snap_ex hotel_b ''2026-11-05'' None, snap_ex hotel_b ''2026-11-06'' None]"
proof -
  have h1: "window_ex \<noteq> []" and h2: "valid_date (last window_ex + 1)"
    using window_ex_facts by simp_all
  have pg: "create_stealth_browser_full env_nav_fail 2 = Inr page_nav_fail"
    by (simp add: env_nav_fail_def)
  have nav: "\<forall>url. goto page_nav_fail url \<noteq> None"
    by (simp add: page_nav_fail_def)
  have mem: "(2, hotel_b) \<in> set (enumerate1 hotels_ex)"
    by (simp add: enumerate1_hotels_ex)
  note inst = navigation_failure_not_counted [OF h1 h2, of iso_format env_nav_fail hotels_ex]
  from inst have f: "failed_hotels (fst (strategy_1_isolated iso_format env_nav_fail hotels_ex window_ex)) = 0"
    by (simp add: enumerate1_hotels_ex env_nav_fail_def)
  from inst have s: "successful_hotels (fst (strategy_1_isolated iso_format env_nav_fail hotels_ex window_ex)) = 3"
    by (simp add: enumerate1_hotels_ex env_nav_fail_def)
  from inst have e: "errors (fst (strategy_1_isolated iso_format env_nav_fail hotels_ex window_ex)) = []"
    by (simp add: enumerate1_hotels_ex env_nav_fail_def)
  note ball = inst [THEN conjunct2, THEN conjunct2, THEN conjunct2, THEN conjunct2]
  from bspec [OF ball mem] pg nav
  have "hotel_block iso_format env_nav_fail window_ex (2, hotel_b) =
      sort_key dateCheckin (map (\<lambda>d. make_snapshot hotel_b [] (iso_format d)) window_ex)"
    by simp
  then have b: "hotel_block iso_format env_nav_fail window_ex (2, hotel_b) =
       [snap_ex hotel_b ''2026-11-05'' None, snap_ex hotel_b ''2026-11-06'' None]"
    by (simp add: window_ex_def iso_ex make_snapshot_def snap_ex_def ascii_def)
  from h1 h2 pg f s e b show ?thesis by simp
qed

section \<open>The strategies\<close>

text \<open>A window of two nights on a page whose navigation fails.\<close>

theorem single_hotel_window_witness:
  "window_ex \<noteq> [] \<and> valid_date (last window_ex + 1) \<and> distinct window_ex
   \<and> iso_format 739925 < iso_format 739926
   \<and> scrape_hotel_with_page iso_format page_nav_fail hotel_a window_ex =
       Inr [snap_ex hotel_a ''2026-11-05'' None, snap_ex hotel_a ''2026-11-06'' None]"
proof -
  have h1: "window_ex \<noteq> []" and h2: "valid_date (last window_ex + 1)"
    and h3: "distinct window_ex"
    using window_ex_facts by simp_all
  have lt: "iso_format 739925 < iso_format 739926"
    by (simp add: iso_ex ascii_def)
  have h4: "inj_on iso_format (set window_ex)"
    by (simp add: window_ex_def iso_ex ascii_def)
  have mono: "\<forall>a\<in>set window_ex. \<forall>b\<in>set window_ex. a < b \<longrightarrow> iso_format a < iso_format b"
    using lt by (simp add: window_ex_def)
  have nav: "\<forall>url. goto page_nav_fail url \<noteq> None"
    by (simp add: page_nav_fail_def)
  from single_hotel_window [OF h1 h2 h3 h4, of page_nav_fail hotel_a]
  obtain snaps where run: "scrape_hotel_with_page iso_format page_nav_fail hotel_a window_ex = Inr snaps"
    and ordered: "(\<forall>a\<in>set window_ex. \<forall>b\<in>set window_ex. a < b \<longrightarrow> iso_format a < iso_format b) \<longrightarrow>
        snaps = map (\<lambda>d. make_snapshot hotel_a
                      (collected_calendar iso_format page_nav_fail hotel_a window_ex) (iso_format d))
                  (sort window_ex)"
    by (elim exE conjE)
  from ordered mono have "snaps = map (\<lambda>d. make_snapshot hotel_a
        (collected_calendar iso_format page_nav_fail hotel_a window_ex) (iso_format d)) (sort window_ex)"
    by (rule mp)
  then have "snaps = [snap_ex hotel_a ''2026-11-05'' None, snap_ex hotel_a ''2026-11-06'' None]"
    by (simp add: nav_fail_empty [OF nav] window_ex_def iso_ex make_snapshot_def snap_ex_def ascii_def)
  with run h1 h2 h3 lt show ?thesis by simp
qed

text \<open>The two nights of the window on a page that shows one price.\<close>

theorem snapshot_available_iff_price_witness:
  "window_ex \<noteq> [] \<and> valid_date (last window_ex + 1)
   \<and> (\<exists>snaps. scrape_hotel_with_page iso_format page_ok hotel_a window_ex = Inr snaps
        \<and> list_all (\<lambda>s. available s \<longleftrightarrow> price s \<noteq> None) snaps \<and> length snaps = 2)"
proof -
  have h1: "window_ex \<noteq> []" and h2: "valid_date (last window_ex + 1)"
    using window_ex_facts by simp_all
  from snapshot_available_iff_price [OF h1 h2, of iso_format page_ok hotel_a "[]" "[]", THEN conjunct1]
  obtain snaps where run: "scrape_hotel_with_page iso_format page_ok hotel_a window_ex = Inr snaps"
    and each: "\<forall>s\<in>set snaps. available s \<longleftrightarrow> price s \<noteq> None"
    by (elim exE conjE)
  from each have all: "list_all (\<lambda>s. available s \<longleftrightarrow> price s \<noteq> None) snaps"
    by (simp add: list_all_iff)
  from run have "length snaps = 2"
    by (auto simp: scrape_page_ok)
  with run all h1 h2 show ?thesis by blast
qed

text \<open>
  Claim C8. The isolated strategy returns the concatenation of the hotels' blocks in input
  order, and so does the shared session once it is acquired, each hotel with the page the
  session gave it. The parallel strategy returns the concatenation of the same blocks in
  the order of completion: each hotel's block once, whatever that order.
\<close>

theorem strategies_concatenate_blocks:
  "snd (strategy_1_isolated f ev hotels dates) =
     concat (map (hotel_block f ev dates) (enumerate1 hotels))
   \<and> (\<forall>pg. create_stealth_browser_full ev 1 = Inr pg \<longrightarrow>
        (\<exists>st. strategy_2_shared_browser f ev hotels dates =
           Inr (st, concat (map (shared_block f dates)
                  (zip (shared_pages ev pg (enumerate1 hotels)) (enumerate1 hotels))))))
   \<and> snd (strategy_3_parallel f ev completion hotels dates) =
       concat (map (hotel_block f ev dates) (map (\<lambda>k. enumerate1 hotels ! k) completion))
   \<and> (is_completion_order completion (length hotels) \<longrightarrow>
        mset (map (hotel_block f ev dates) (map (\<lambda>k. enumerate1 hotels ! k) completion)) =
        mset (map (hotel_block f ev dates) (enumerate1 hotels)))"
proof (intro conjI allI impI)
  show "snd (strategy_1_isolated f ev hotels dates) =
     concat (map (hotel_block f ev dates) (enumerate1 hotels))"
    by (simp add: strategy_1_isolated_def strategy_1_loop_eq loop3_snd)
  show "snd (strategy_3_parallel f ev completion hotels dates) =
       concat (map (hotel_block f ev dates) (map (\<lambda>k. enumerate1 hotels ! k) completion))"
    by (simp add: strategy_3_parallel_def loop3_snd)
next
  fix pg
  assume pg: "create_stealth_browser_full ev 1 = Inr pg"
  let ?r = "strategy_2_loop f ev dates pg (enumerate1 hotels) (init_stats hotels, [])"
  have "strategy_2_shared_browser f ev hotels dates = Inr (fst ?r, snd ?r)"
    using pg by (simp add: strategy_2_shared_browser_def)
  then have "strategy_2_shared_browser f ev hotels dates =
      Inr (fst ?r, concat (map (shared_block f dates)
                  (zip (shared_pages ev pg (enumerate1 hotels)) (enumerate1 hotels))))"
    by (simp add: loop2_snd)
  then show "\<exists>st. strategy_2_shared_browser f ev hotels dates =
           Inr (st, concat (map (shared_block f dates)
                  (zip (shared_pages ev pg (enumerate1 hotels)) (enumerate1 hotels))))"
    by (rule exI)
next
  assume "is_completion_order completion (length hotels)"
  then have "is_completion_order completion (length (enumerate1 hotels))"
    by (simp add: length_enumerate1)
  then have "mset (map (\<lambda>k. enumerate1 hotels ! k) completion) = mset (enumerate1 hotels)"
    by (rule completion_mset)
  then show "mset (map (hotel_block f ev dates) (map (\<lambda>k. enumerate1 hotels ! k) completion)) =
        mset (map (hotel_block f ev dates) (enumerate1 hotels))"
    by (metis mset_map)
qed

text \<open>
  Claim C10. For each strategy the statistics returned are consistent: the number of
  hotels is the length of the input, successes and failures add up to it, there are as
  many error entries as failures, and the snapshot counter is the length of the list
  returned. The shared session returns once its session is acquired; the parallel
  strategy for every order of completion.
\<close>

theorem run_stats_consistent:
  "stats_consistent (length hotels) (strategy_1_isolated f ev hotels dates)
   \<and> (\<forall>pg. create_stealth_browser_full ev 1 = Inr pg \<longrightarrow>
        (\<exists>r. strategy_2_shared_browser f ev hotels dates = Inr r \<and>
             stats_consistent (length hotels) r))
   \<and> (is_completion_order completion (length hotels) \<longrightarrow>
        stats_consistent (length hotels) (strategy_3_parallel f ev completion hotels dates))"
  using strategy_1_consistent strategy_2_consistent strategy_3_consistent by blast

lemma completion_ex_order: "is_completion_order completion_ex (length hotels_ex)"
  by (simp add: is_completion_order_def completion_ex_def hotels_ex_def upt_rec)

lemma run_launch_fail_parallel:
  "strategy_3_parallel iso_format env_launch_fail completion_ex hotels_ex window_ex =
     (\<lparr>total_hotels = 3, total_snapshots = 4, successful_hotels = 2, failed_hotels = 1,
       errors = [ascii ''Beta: launch failed'']\<rparr>,
      [snap_ex hotel_c ''2026-11-05'' (Some 120), snap_ex hotel_c ''2026-11-06'' None,
       snap_ex hotel_a ''2026-11-05'' (Some 120), snap_ex hotel_a ''2026-11-06'' None])"
  by (simp add: strategy_3_parallel_def completion_ex_def enumerate1_hotels_ex env_launch_fail_def scrape_one_def
      scrape_page_ok on_success_def on_failure_def init_stats_def length_hotels_ex hotel_b_def
      ascii_def)

lemma run_launch_fail_isolated:
  "strategy_1_isolated iso_format env_launch_fail hotels_ex window_ex =
     (\<lparr>total_hotels = 3, total_snapshots = 4, successful_hotels = 2, failed_hotels = 1,
       errors = [ascii ''Beta: launch failed'']\<rparr>,
      [snap_ex hotel_a ''2026-11-05'' (Some 120), snap_ex hotel_a ''2026-11-06'' None,
       snap_ex hotel_c ''2026-11-05'' (Some 120), snap_ex hotel_c ''2026-11-06'' None])"
  by (simp add: strategy_1_isolated_def enumerate1_hotels_ex env_launch_fail_def
      scrape_page_ok on_success_def on_failure_def init_stats_def length_hotels_ex hotel_b_def
      ascii_def)

text \<open>Three hotels, the session of the second not acquired, the third completing first.\<close>

theorem strategies_concatenate_blocks_witness:
  "create_stealth_browser_full env_launch_fail 1 = Inr page_ok
   \<and> is_completion_order completion_ex (length hotels_ex)
   \<and> (\<exists>st. strategy_2_shared_browser iso_format env_launch_fail hotels_ex window_ex =
         Inr (st, concat (map (shared_block iso_format window_ex)
                (zip (shared_pages env_launch_fail page_ok (enumerate1 hotels_ex))
                     (enumerate1 hotels_ex)))))
   \<and> mset (map (hotel_block iso_format env_launch_fail window_ex)
             (map (\<lambda>k. enumerate1 hotels_ex ! k) completion_ex)) =
       mset (map (hotel_block iso_format env_launch_fail window_ex) (enumerate1 hotels_ex))
   \<and> snd (strategy_3_parallel iso_format env_launch_fail completion_ex hotels_ex window_ex) \<noteq>
       snd (strategy_1_isolated iso_format env_launch_fail hotels_ex window_ex)"
proof -
  have pg: "create_stealth_browser_full env_launch_fail 1 = Inr page_ok"
    by (simp add: env_launch_fail_def)
  note inst = strategies_concatenate_blocks
    [of iso_format env_launch_fail hotels_ex window_ex completion_ex]
  from inst pg have shared: "\<exists>st. strategy_2_shared_browser iso_format env_launch_fail hotels_ex window_ex =
         Inr (st, concat (map (shared_block iso_format window_ex)
                (zip (shared_pages env_launch_fail page_ok (enumerate1 hotels_ex))
                     (enumerate1 hotels_ex))))"
    by blast
  from inst completion_ex_order
  have grouped: "mset (map (hotel_block iso_format env_launch_fail window_ex)
             (map (\<lambda>k. enumerate1 hotels_ex ! k) completion_ex)) =
       mset (map (hotel_block iso_format env_launch_fail window_ex) (enumerate1 hotels_ex))"
    by blast
  have differ: "snd (strategy_3_parallel iso_format env_launch_fail completion_ex hotels_ex window_ex) \<noteq>
       snd (strategy_1_isolated iso_format env_launch_fail hotels_ex window_ex)"
    by (simp add: run_launch_fail_parallel run_launch_fail_isolated snap_ex_def hotel_a_def
        hotel_c_def ascii_def)
  from pg completion_ex_order shared grouped differ show ?thesis by blast
qed

text \<open>The same run: the statistics count one failure.\<close>

theorem run_stats_consistent_witness:
  "create_stealth_browser_full env_launch_fail 1 = Inr page_ok
   \<and> is_completion_order completion_ex (length hotels_ex)
   \<and> (\<exists>r. strategy_2_shared_browser iso_format env_launch_fail hotels_ex window_ex = Inr r \<and>
           stats_consistent 3 r)
   \<and> stats_consistent 3 (strategy_3_parallel iso_format env_launch_fail completion_ex hotels_ex window_ex)
   \<and> failed_hotels (fst (strategy_3_parallel iso_format env_launch_fail completion_ex hotels_ex window_ex)) = 1"
proof -
  have pg: "create_stealth_browser_full env_launch_fail 1 = Inr page_ok"
    by (simp add: env_launch_fail_def)
  note inst = run_stats_consistent [of hotels_ex iso_format env_launch_fail window_ex completion_ex]
  from inst pg have shared: "\<exists>r. strategy_2_shared_browser iso_format env_launch_fail hotels_ex window_ex = Inr r \<and>
           stats_consistent 3 r"
    by (simp add: length_hotels_ex)
  from inst completion_ex_order
  have par: "stats_consistent 3 (strategy_3_parallel iso_format env_launch_fail completion_ex hotels_ex window_ex)"
    by (simp add: length_hotels_ex)
  have "failed_hotels (fst (strategy_3_parallel iso_format env_launch_fail completion_ex hotels_ex window_ex)) = 1"
    by (simp add: run_launch_fail_parallel)
  with pg completion_ex_order shared par show ?thesis by blast
qed

section \<open>The windows of the Date Window Builder\<close>

lemma add_days_valid:
  "\<forall>i\<in>set offs. valid_date (today + i) \<Longrightarrow> add_days today offs = Inr (map (\<lambda>i. today + i) offs)"
  by (induction offs) (simp_all add: date_add_def)

lemma window_30_valid:
  assumes "valid_date (today + 1)" and "valid_date (today + 30)"
  shows "\<forall>i\<in>set [1..30]. valid_date (today + i)"
  using assms by (auto simp: valid_date_def)

lemma strict_sorted_shift:
  "sorted_wrt (<) (map (\<lambda>i. today + i) offs) = sorted_wrt (<) (offs :: int list)"
  by (simp add: sorted_wrt_map)

lemma sorted_shift:
  "sorted (map (\<lambda>i. today + i) offs) = sorted (offs :: int list)"
  by (simp add: sorted_wrt_map)

lemma strict_sorted_take: "sorted_wrt (<) xs \<Longrightarrow> sorted_wrt (<) (take k (xs :: int list))"
  by (simp add: sorted_wrt_take)

lemma hd_window_30: "hd (map (\<lambda>i. today + i) [1..30]) = today + 1"
  by (simp add: upto_rec1 [of 1 30])

lemma hd_sorted_Min:
  assumes "sorted xs" and "xs \<noteq> []"
  shows "hd xs = Min (set (xs :: int list))"
proof (cases xs)
  case Nil
  with assms(2) show ?thesis by simp
next
  case (Cons x rest)
  with assms(1) have "\<forall>y\<in>set xs. x \<le> y" by auto
  then have "Min (set xs) = x"
    using Cons by (intro Min_eqI) auto
  then show ?thesis using Cons by simp
qed

lemma get_next_30_days_valid:
  assumes "valid_date (today + 1)" and "valid_date (today + 30)"
  shows "get_next_30_days today max_dates =
     Inr (take (case max_dates of None \<Rightarrow> 30 | Some n \<Rightarrow> if n > 0 then nat n else 30)
            (map (\<lambda>i. today + i) [1..30]))"
  using add_days_valid [OF window_30_valid [OF assms]]
  by (simp add: get_next_30_days_def split: option.splits)

text \<open>
  Claim C6, as amended. While the dates stay in the calendar's range, the default builder
  returns today+1 to today+30, truncated to \<open>max_dates\<close> when that is positive: the window
  is strictly ascending, has at most 30 dates (and at most \<open>max_dates\<close> when positive), is
  not empty and starts tomorrow. The offset builder returns today plus each offset, the
  offsets sorted: as many dates as offsets, ascending, strictly so when the offsets are
  distinct, and starting at today plus the smallest offset, which is after today only
  when that offset is positive.
\<close>

theorem date_window_builder:
  assumes "valid_date (today + 1)" and "valid_date (today + 30)"
    and "\<forall>i\<in>set offsets. valid_date (today + i)"
  shows "(\<exists>ds. get_next_30_days today max_dates = Inr ds
       \<and> ds = take (case max_dates of None \<Rightarrow> 30 | Some n \<Rightarrow> if n > 0 then nat n else 30)
                 (map (\<lambda>i. today + i) [1..30])
       \<and> sorted_wrt (<) ds
       \<and> length ds \<le> 30
       \<and> (\<forall>n. max_dates = Some n \<and> n > 0 \<longrightarrow> length ds = min (nat n) 30)
       \<and> ds \<noteq> [] \<and> hd ds = today + 1 \<and> today < hd ds)
     \<and> (\<exists>ds. get_dates_from_offsets today offsets = Inr ds
       \<and> ds = map (\<lambda>i. today + i) (sort offsets)
       \<and> sorted ds
       \<and> length ds = length offsets
       \<and> (distinct offsets \<longrightarrow> sorted_wrt (<) ds)
       \<and> (offsets \<noteq> [] \<longrightarrow> hd ds = today + Min (set offsets)))"
proof (intro conjI)
  define k where "k = (case max_dates of None \<Rightarrow> 30 | Some n \<Rightarrow> if n > 0 then nat n else (30::nat))"
  define ds where "ds = take k (map (\<lambda>i. today + i) [1..30])"
  have kpos: "0 < k"
    by (simp add: k_def split: option.splits)
  have run: "get_next_30_days today max_dates = Inr ds"
    unfolding ds_def k_def using assms(1,2) by (rule get_next_30_days_valid)
  have strict: "sorted_wrt (<) ds"
    unfolding ds_def by (intro strict_sorted_take) (simp add: strict_sorted_shift)
  have len: "length ds = min k 30"
    by (simp add: ds_def)
  then have le30: "length ds \<le> 30" by simp
  have cap: "\<forall>n. max_dates = Some n \<and> n > 0 \<longrightarrow> length ds = min (nat n) 30"
    using len by (simp add: k_def)
  have ne: "ds \<noteq> []"
    using len kpos by auto
  have hd: "hd ds = today + 1"
    unfolding ds_def using kpos by (simp add: hd_window_30)
  then have after: "today < hd ds" by simp
  show "\<exists>ds. get_next_30_days today max_dates = Inr ds
       \<and> ds = take (case max_dates of None \<Rightarrow> 30 | Some n \<Rightarrow> if n > 0 then nat n else 30)
                 (map (\<lambda>i. today + i) [1..30])
       \<and> sorted_wrt (<) ds
       \<and> length ds \<le> 30
       \<and> (\<forall>n. max_dates = Some n \<and> n > 0 \<longrightarrow> length ds = min (nat n) 30)
       \<and> ds \<noteq> [] \<and> hd ds = today + 1 \<and> today < hd ds"
    using run strict le30 cap ne hd after ds_def k_def by blast
next
  define ds where "ds = map (\<lambda>i. today + i) (sort offsets)"
  have "\<forall>i\<in>set (sort offsets). valid_date (today + i)"
    using assms(3) by simp
  then have run: "get_dates_from_offsets today offsets = Inr ds"
    unfolding ds_def get_dates_from_offsets_def by (rule add_days_valid)
  have srt: "sorted ds"
    by (simp add: ds_def sorted_shift)
  have len: "length ds = length offsets"
    by (simp add: ds_def)
  have strict: "distinct offsets \<longrightarrow> sorted_wrt (<) ds"
  proof
    assume "distinct offsets"
    then have "sorted_wrt (<) (sort offsets)"
      by (simp add: strict_sorted_iff)
    then show "sorted_wrt (<) ds"
      unfolding ds_def by (simp only: strict_sorted_shift)
  qed
  have first: "offsets \<noteq> [] \<longrightarrow> hd ds = today + Min (set offsets)"
  proof
    assume ne: "offsets \<noteq> []"
    then have "sort offsets \<noteq> []"
      by (metis length_sort length_0_conv)
    then have "hd ds = today + hd (sort offsets)"
      by (simp add: ds_def hd_map)
    also have "hd (sort offsets) = Min (set (sort offsets))"
      using \<open>sort offsets \<noteq> []\<close> by (intro hd_sorted_Min) simp_all
    finally show "hd ds = today + Min (set offsets)" by simp
  qed
  show "\<exists>ds. get_dates_from_offsets today offsets = Inr ds
       \<and> ds = map (\<lambda>i. today + i) (sort offsets)
       \<and> sorted ds
       \<and> length ds = length offsets
       \<and> (distinct offsets \<longrightarrow> sorted_wrt (<) ds)
       \<and> (offsets \<noteq> [] \<longrightarrow> hd ds = today + Min (set offsets))"
    using run srt len strict first ds_def by blast
qed

text \<open>
  Claim C6, as stated, fails for the offset builder: the offset 0 gives a window that
  starts today, and a repeated offset gives a window that is not strictly ascending.
\<close>

theorem offset_window_counterexample:
  "get_dates_from_offsets today_ex [0] = Inr [today_ex]
   \<and> \<not> today_ex < hd [today_ex]
   \<and> get_dates_from_offsets today_ex [7, 7] = Inr [today_ex + 7, today_ex + 7]
   \<and> \<not> sorted_wrt (<) [today_ex + 7, today_ex + 7]"
  by (simp add: get_dates_from_offsets_def date_add_def valid_date_def today_ex_def)

text \<open>The fourth of November 2026 with a cap of three dates, and the offsets 30, 1 and 7.\<close>

theorem date_window_builder_witness:
  "valid_date (today_ex + 1) \<and> valid_date (today_ex + 30)
   \<and> get_next_30_days today_ex (Some 3) = Inr [739925, 739926, 739927]
   \<and> get_dates_from_offsets today_ex [30, 1, 7] = Inr [739925, 739931, 739954]"
proof -
  have h1: "valid_date (today_ex + 1)" and h2: "valid_date (today_ex + 30)"
    by (simp_all add: valid_date_def today_ex_def)
  have h3: "\<forall>i\<in>set [30, 1, 7]. valid_date (today_ex + i)"
    by (simp add: valid_date_def today_ex_def)
  note inst = date_window_builder [OF h1 h2 h3, of "Some 3"]
  from inst [THEN conjunct1] have a: "get_next_30_days today_ex (Some 3) = Inr [739925, 739926, 739927]"
    by (auto simp: today_ex_def upto_rec1 [of 1 30] upto_rec1 [of 2 30] upto_rec1 [of 3 30])
  from inst [THEN conjunct2] have b: "get_dates_from_offsets today_ex [30, 1, 7] = Inr [739925, 739931, 739954]"
    by (auto simp: today_ex_def)
  from h1 h2 a b show ?thesis by simp
qed

section \<open>The search of the structured payload\<close>

lemma is_calendar_days_listD:
  assumes "is_calendar_days_list v"
  shows "\<exists>kvs rest. v = Some (JList (JDict kvs # rest)) \<and> dict_get kvs (ascii ''checkin'') \<noteq> None"
  using assms by (cases v rule: is_calendar_days_list.cases) simp_all

lemma find_calendar_days_candidates:
  "find_calendar_days obj = (case candidates obj of [] \<Rightarrow> None | days # _ \<Rightarrow> Some days)"
  "find_in_values kvs = (case candidates_values kvs of [] \<Rightarrow> None | days # _ \<Rightarrow> Some days)"
  "find_in_items xs = (case candidates_items xs of [] \<Rightarrow> None | days # _ \<Rightarrow> Some days)"
proof (induction obj and kvs and xs rule: find_calendar_days_find_in_values_find_in_items.induct)
  case (1 kvs)
  show ?case
  proof (cases "is_calendar_days_list (dict_get kvs (ascii ''days''))")
    case True
    from is_calendar_days_listD [OF this] obtain kvs' rest
      where d: "dict_get kvs (ascii ''days'') = Some (JList (JDict kvs' # rest))"
      by blast
    with True show ?thesis by simp
  next
    case False
    with 1 show ?thesis
      by (auto split: option.splits json.splits)
  qed
next
  case (8 kv rest)
  then show ?case by (simp split: list.splits option.splits)
next
  case (10 item rest)
  then show ?case by (simp split: list.splits option.splits)
qed simp_all

lemma candidates_checked:
  "\<forall>days\<in>set (candidates obj). is_calendar_days_list (Some (JList days))"
  "\<forall>days\<in>set (candidates_values kvs). is_calendar_days_list (Some (JList days))"
  "\<forall>days\<in>set (candidates_items xs). is_calendar_days_list (Some (JList days))"
  by (induction obj and kvs and xs rule: candidates_candidates_values_candidates_items.induct)
     (auto split: option.splits json.splits)

text \<open>
  Claim C7, as amended. The search returns the first candidate of the depth-first
  traversal, and nothing when there is none; a candidate is a non-empty list found under
  the key \<open>days\<close> of a mapping whose first entry is a mapping with a \<open>checkin\<close> key. The
  other entries and the formatted price are not looked at.
\<close>

theorem find_calendar_days_first_candidate:
  "find_calendar_days obj = (case candidates obj of [] \<Rightarrow> None | days # _ \<Rightarrow> Some days)
   \<and> (\<forall>days\<in>set (candidates obj).
        \<exists>kvs rest. days = JDict kvs # rest \<and> dict_get kvs (ascii ''checkin'') \<noteq> None)"
proof
  show "find_calendar_days obj = (case candidates obj of [] \<Rightarrow> None | days # _ \<Rightarrow> Some days)"
    by (rule find_calendar_days_candidates(1))
  show "\<forall>days\<in>set (candidates obj).
        \<exists>kvs rest. days = JDict kvs # rest \<and> dict_get kvs (ascii ''checkin'') \<noteq> None"
  proof
    fix days assume "days \<in> set (candidates obj)"
    with candidates_checked(1) have "is_calendar_days_list (Some (JList days))" by blast
    from is_calendar_days_listD [OF this]
    show "\<exists>kvs rest. days = JDict kvs # rest \<and> dict_get kvs (ascii ''checkin'') \<noteq> None"
      by simp
  qed
qed

lemma candidates_first_only:
  "candidates payload_first_only =
     [[JDict [(ascii ''checkin'', JStr (ascii ''2026-02-11''))], JNum 5]]"
  by (simp add: payload_first_only_def dict_get_def ascii_def)

text \<open>
  Claim C7, as stated, fails: a list is returned whose entries do not all have a check-in
  date and a formatted price, and a list whose entries all have them is not found under a
  key other than \<open>days\<close>.
\<close>

theorem find_calendar_days_counterexample:
  "find_calendar_days payload_first_only =
     Some [JDict [(ascii ''checkin'', JStr (ascii ''2026-02-11''))], JNum 5]
   \<and> \<not> spec_calendar_days [JDict [(ascii ''checkin'', JStr (ascii ''2026-02-11''))], JNum 5]
   \<and> find_calendar_days payload_other_key = None
   \<and> spec_calendar_days [day_entry ''2026-02-11'' True (EURO # ascii '' 152'')]"
  by (simp add: payload_first_only_def payload_other_key_def day_entry_def dict_get_def
      spec_calendar_days_def entry_has_fields_def ascii_def)

text \<open>The payload whose nested list has a single checked entry.\<close>

theorem find_calendar_days_first_candidate_witness:
  "candidates payload_first_only =
     [[JDict [(ascii ''checkin'', JStr (ascii ''2026-02-11''))], JNum 5]]
   \<and> find_calendar_days payload_first_only =
     Some [JDict [(ascii ''checkin'', JStr (ascii ''2026-02-11''))], JNum 5]"
  using find_calendar_days_first_candidate [of payload_first_only]
  by (simp add: candidates_first_only)

section \<open>The availability of merged entries\<close>

lemma merge_days_into_append:
  "merge_days_into cal (pre @ post) =
     (case merge_days_into cal pre of
        (cal', Some e) \<Rightarrow> (cal', Some e)
      | (cal', None) \<Rightarrow> merge_days_into cal' post)"
  by (induction pre arbitrary: cal) (simp_all split: prod.splits option.splits)

lemma merge_day_available_unparsed:
  assumes "dict_get kvs (ascii ''checkin'') = Some checkin" and "truthy checkin"
    and "as_key checkin = Inr k"
    and "dict_get kvs (ascii ''available'') = Some (JBool True)"
    and "formatted_of kvs = Inr formatted"
    and "parse_avg_price (Some formatted) = None"
  shows "merge_day cal (JDict kvs) =
     (AList.update k \<lparr>obs_price = None, obs_available = (ZERO_CHAR \<notin> set formatted)\<rparr> cal, None)"
  using assms by (simp add: merge_day_def Let_def)

text \<open>
  Claim C5, as amended. For a day entry with a usable check-in key whose availability is
  reported true and whose stripped price text normalizes to nothing, the observation
  stored for that key has no price, and it is unavailable exactly when the text contains
  the character 0; otherwise it stays available. (The normalizer never yields zero: its
  amounts are at least 10.)
\<close>

theorem available_downgraded_only_with_zero:
  assumes "dict_get kvs (ascii ''checkin'') = Some checkin" and "truthy checkin"
    and "as_key checkin = Inr k"
    and "dict_get kvs (ascii ''available'') = Some (JBool True)"
    and "formatted_of kvs = Inr formatted"
    and "parse_avg_price (Some formatted) = None"
    and "snd (merge_days_into cal pre) = None"
  shows "map_of (fst (merge_days_into cal (pre @ [JDict kvs]))) k =
       Some \<lparr>obs_price = None, obs_available = (ZERO_CHAR \<notin> set formatted)\<rparr>
     \<and> snd (merge_days_into cal (pre @ [JDict kvs])) = None"
proof -
  obtain cal' where pre: "merge_days_into cal pre = (cal', None)"
    using assms(7) by (cases "merge_days_into cal pre") simp
  have "merge_days_into cal (pre @ [JDict kvs]) =
      (AList.update k \<lparr>obs_price = None, obs_available = (ZERO_CHAR \<notin> set formatted)\<rparr> cal', None)"
    by (simp add: merge_days_into_append pre merge_day_available_unparsed [OF assms(1-6)])
  then show ?thesis
    by (simp add: update_conv')
qed

lemma parse_5: "parse_avg_price (Some (EURO # ascii '' 5'')) = None"
  by (simp add: parse_defs char_defs)

lemma parse_120: "parse_avg_price (Some (EURO # ascii '' 120'')) = Some 120"
  by (simp add: parse_defs char_defs)

lemmas merge_defs = merge_day_def day_entry_def dict_get_def formatted_of_def

lemma strip_samples:
  "strip (EURO # ascii '' 5'') = EURO # ascii '' 5''"
  "strip (EURO # ascii '' 0'') = EURO # ascii '' 0''"
  "strip (EURO # ascii '' 120'') = EURO # ascii '' 120''"
  "strip [] = []"
  by (simp_all add: strip_def ascii_def char_defs)

text \<open>
  Claim C5, as stated, fails: an entry reported available whose price text is the euro
  sign followed by 5 normalizes to nothing and is stored as available; so is an entry
  with no price text at all.
\<close>

theorem available_without_price_counterexample:
  "parse_avg_price (Some (EURO # ascii '' 5'')) = None
   \<and> merge_days_into [] [day_entry ''2026-02-11'' True (EURO # ascii '' 5'')] =
       ([(KStr (ascii ''2026-02-11''), \<lparr>obs_price = None, obs_available = True\<rparr>)], None)
   \<and> merge_days_into []
       [JDict [(ascii ''checkin'', JStr (ascii ''2026-02-11'')), (ascii ''available'', JBool True)]] =
       ([(KStr (ascii ''2026-02-11''), \<lparr>obs_price = None, obs_available = True\<rparr>)], None)"
proof (intro conjI)
  show "parse_avg_price (Some (EURO # ascii '' 5'')) = None"
    by (rule parse_5)
  show "merge_days_into [] [day_entry ''2026-02-11'' True (EURO # ascii '' 5'')] =
       ([(KStr (ascii ''2026-02-11''), \<lparr>obs_price = None, obs_available = True\<rparr>)], None)"
    by (simp add: merge_defs strip_samples parse_5)
       (simp add: ascii_def char_defs)
  show "merge_days_into []
       [JDict [(ascii ''checkin'', JStr (ascii ''2026-02-11'')), (ascii ''available'', JBool True)]] =
       ([(KStr (ascii ''2026-02-11''), \<lparr>obs_price = None, obs_available = True\<rparr>)], None)"
    by (simp add: merge_defs parse_avg_price_def parse_amount_def)
       (simp add: ascii_def)
qed

text \<open>
  An entry reported available with a price of zero euros, and one whose price is followed
  by the separator U+001C and a word: the first is stored unavailable, the second stays
  available without a price.
\<close>

theorem available_downgraded_only_with_zero_witness:
  "parse_avg_price (Some (EURO # ascii '' 0'')) = None
   \<and> map_of (fst (merge_days_into [] ([] @ [day_entry ''2026-02-11'' True (EURO # ascii '' 0'')])))
        (KStr (ascii ''2026-02-11'')) = Some \<lparr>obs_price = None, obs_available = False\<rparr>
   \<and> parse_avg_price (Some (EURO # ascii '' 152'' @ 28 # ascii ''nuit'')) = None
   \<and> map_of (fst (merge_days_into []
          ([] @ [day_entry ''2026-02-11'' True (EURO # ascii '' 152'' @ 28 # ascii ''nuit'')])))
        (KStr (ascii ''2026-02-11'')) = Some \<lparr>obs_price = None, obs_available = True\<rparr>"
proof -
  let ?kvs = "[(ascii ''checkin'', JStr (ascii ''2026-02-11'')), (ascii ''available'', JBool True),
               (ascii ''avgPriceFormatted'', JStr (EURO # ascii '' 0''))]"
  have h1: "dict_get ?kvs (ascii ''checkin'') = Some (JStr (ascii ''2026-02-11''))"
    by (simp add: dict_get_def ascii_def)
  have h2: "truthy (JStr (ascii ''2026-02-11''))"
    by (simp add: ascii_def)
  have h3: "as_key (JStr (ascii ''2026-02-11'')) = Inr (KStr (ascii ''2026-02-11''))"
    by simp
  have h4: "dict_get ?kvs (ascii ''available'') = Some (JBool True)"
    by (simp add: dict_get_def ascii_def)
  have h5: "formatted_of ?kvs = Inr (EURO # ascii '' 0'')"
    by (simp add: formatted_of_def dict_get_def strip_samples) (simp add: ascii_def)
  have h6: "parse_avg_price (Some (EURO # ascii '' 0'')) = None"
    by (rule parse_0)
  have h7: "snd (merge_days_into [] []) = None"
    by simp
  have z: "ZERO_CHAR \<in> set (EURO # ascii '' 0'')"
    by (simp add: ascii_def char_defs)
  from available_downgraded_only_with_zero [OF h1 h2 h3 h4 h5 h6 h7] z
  have zero: "map_of (fst (merge_days_into [] ([] @ [day_entry ''2026-02-11'' True (EURO # ascii '' 0'')])))
        (KStr (ascii ''2026-02-11'')) = Some \<lparr>obs_price = None, obs_available = False\<rparr>"
    by (simp add: day_entry_def)
  let ?kvs' = "[(ascii ''checkin'', JStr (ascii ''2026-02-11'')), (ascii ''available'', JBool True),
               (ascii ''avgPriceFormatted'', JStr (EURO # ascii '' 152'' @ 28 # ascii ''nuit''))]"
  have g1: "dict_get ?kvs' (ascii ''checkin'') = Some (JStr (ascii ''2026-02-11''))"
    by (simp add: dict_get_def ascii_def)
  have g4: "dict_get ?kvs' (ascii ''available'') = Some (JBool True)"
    by (simp add: dict_get_def ascii_def)
  have st: "strip (EURO # ascii '' 152'' @ 28 # ascii ''nuit'') =
      EURO # ascii '' 152'' @ 28 # ascii ''nuit''"
    by (simp add: strip_def ascii_def char_defs)
  have g5: "formatted_of ?kvs' = Inr (EURO # ascii '' 152'' @ 28 # ascii ''nuit'')"
    by (simp add: formatted_of_def dict_get_def st) (simp add: ascii_def)
  have g6: "parse_avg_price (Some (EURO # ascii '' 152'' @ 28 # ascii ''nuit'')) = None"
    by (rule parse_separator)
  have nz: "ZERO_CHAR \<notin> set (EURO # ascii '' 152'' @ 28 # ascii ''nuit'')"
    by (simp add: ascii_def char_defs)
  from available_downgraded_only_with_zero [OF g1 h2 h3 g4 g5 g6 h7] nz
  have sep: "map_of (fst (merge_days_into []
          ([] @ [day_entry ''2026-02-11'' True (EURO # ascii '' 152'' @ 28 # ascii ''nuit'')])))
        (KStr (ascii ''2026-02-11'')) = Some \<lparr>obs_price = None, obs_available = True\<rparr>"
    by (simp add: day_entry_def)
  from h6 zero g6 sep show ?thesis by simp
qed

section \<open>Overwriting an observation\<close>

text \<open>
  Claim C1, at the inputs where the code departs from it. Merging an available entry and
  then an unavailable one for the same date stores the unavailable one, in the structured
  merge and across two readings of the retry loop alike, and the snapshot of that date is
  unavailable; in the reverse order the available one is stored. Within one reading of
  the grid the script does keep the available cell, in either order.
\<close>

theorem later_unavailable_overwrites:
  "fst (merge_days_into []
         [day_entry ''2026-02-11'' True (EURO # ascii '' 120''), day_entry ''2026-02-11'' False []]) =
     [(KStr (ascii ''2026-02-11''), \<lparr>obs_price = None, obs_available = False\<rparr>)]
   \<and> fst (merge_days_into []
         [day_entry ''2026-02-11'' False [], day_entry ''2026-02-11'' True (EURO # ascii '' 120'')]) =
     [(KStr (ascii ''2026-02-11''), \<lparr>obs_price = Some 120, obs_available = True\<rparr>)]
   \<and> extract_calendar_from_dom page_glitch 0 =
       Inr [(ascii ''2026-11-05'', \<lparr>obs_price = Some 120, obs_available = True\<rparr>)]
   \<and> extract_calendar_from_dom page_glitch 1 =
       Inr [(ascii ''2026-11-05'', \<lparr>obs_price = None, obs_available = False\<rparr>)]
   \<and> fst (collect_calendar page_glitch [] 2) =
       [(ascii ''2026-11-05'', \<lparr>obs_price = None, obs_available = False\<rparr>)]
   \<and> scrape_hotel_with_page iso_format page_glitch hotel_a window_ex =
       Inr [snap_ex hotel_a ''2026-11-05'' None, snap_ex hotel_a ''2026-11-06'' None]
   \<and> js_calendar (dom_of [cell_priced, cell_blank]) =
       [(ascii ''2026-11-05'', \<lparr>obs_price = Some 120, obs_available = True\<rparr>)]
   \<and> js_calendar (dom_of [cell_blank, cell_priced]) =
       [(ascii ''2026-11-05'', \<lparr>obs_price = Some 120, obs_available = True\<rparr>)]"
proof (intro conjI)
  show "fst (merge_days_into []
         [day_entry ''2026-02-11'' True (EURO # ascii '' 120''), day_entry ''2026-02-11'' False []]) =
     [(KStr (ascii ''2026-02-11''), \<lparr>obs_price = None, obs_available = False\<rparr>)]"
    by (simp add: merge_defs strip_samples parse_120) (simp add: ascii_def char_defs)
  show "fst (merge_days_into []
         [day_entry ''2026-02-11'' False [], day_entry ''2026-02-11'' True (EURO # ascii '' 120'')]) =
     [(KStr (ascii ''2026-02-11''), \<lparr>obs_price = Some 120, obs_available = True\<rparr>)]"
    by (simp add: merge_defs strip_samples parse_120) (simp add: ascii_def char_defs)
  show "extract_calendar_from_dom page_glitch 0 =
       Inr [(ascii ''2026-11-05'', \<lparr>obs_price = Some 120, obs_available = True\<rparr>)]"
    by (simp add: extract_calendar_from_dom_def page_glitch_def js_calendar_priced)
  show "extract_calendar_from_dom page_glitch 1 =
       Inr [(ascii ''2026-11-05'', \<lparr>obs_price = None, obs_available = False\<rparr>)]"
    by (simp add: extract_calendar_from_dom_def page_glitch_def js_calendar_blank)
  show "fst (collect_calendar page_glitch [] 2) =
       [(ascii ''2026-11-05'', \<lparr>obs_price = None, obs_available = False\<rparr>)]"
    by (simp add: collect_page_glitch)
  show "scrape_hotel_with_page iso_format page_glitch hotel_a window_ex =
       Inr [snap_ex hotel_a ''2026-11-05'' None, snap_ex hotel_a ''2026-11-06'' None]"
    by (rule scrape_page_glitch)
  show "js_calendar (dom_of [cell_priced, cell_blank]) =
       [(ascii ''2026-11-05'', \<lparr>obs_price = Some 120, obs_available = True\<rparr>)]"
    by (simp add: js_defs cell_priced_def cell_blank_def ascii_def replace_char_def
        digits_value_def char_defs)
  show "js_calendar (dom_of [cell_blank, cell_priced]) =
       [(ascii ''2026-11-05'', \<lparr>obs_price = Some 120, obs_available = True\<rparr>)]"
    by (simp add: js_defs cell_priced_def cell_blank_def ascii_def replace_char_def
        digits_value_def char_defs)
qed

end
